theory Spec2Isabelle
  imports Complex_Main "HOL-Library.AList" "HOL-Library.Log_Nat"
begin

section \<open>Python values and configuration objects\<close>

text \<open>
  The configuration classes of \<^verbatim>\<open>quarkchain/config.py\<close> are ordinary Python
  classes whose fields are discovered by reflection, so the embedding keeps the
  dynamic shape of the code: an object is its class together with its instance
  dictionary, and a class is the dictionary of its class-level attributes.
  Dictionaries are association lists in insertion order. Finite floats are
  represented by their exact rational value. References are represented by the
  value they point to.
\<close>

datatype error = AttributeError | KeyError | TypeError | ValueError | AssertionError
  | ZeroDivisionError | OverflowError

datatype ConsensusType = NONE | POW_ETHASH | POW_SHA3SHA3 | POW_SIMULATE | POW_QKCHASH

datatype cls = RootGenesis | ShardGenesis | POWConfig | ShardConfig | RootConfig
  | QuarkChainConfig

datatype pyval =
    VNone
  | VBool bool
  | VInt int
  | VFloat rat
  | VStr string
  | VEnum ConsensusType
  | VList "pyval list"
  | VDict "(string \<times> pyval) list"
  | VObj cls "(string \<times> pyval) list"

type_synonym pydict = "(string \<times> pyval) list"

subsection \<open>Strings\<close>

definition is_upper_char :: "char \<Rightarrow> bool" where
  "is_upper_char c = ((65::nat) \<le> of_char c \<and> (of_char c :: nat) \<le> 90)"

definition is_lower_char :: "char \<Rightarrow> bool" where
  "is_lower_char c = ((97::nat) \<le> of_char c \<and> (of_char c :: nat) \<le> 122)"

text \<open>\<^verbatim>\<open>str.isupper\<close>: at least one cased character and no lowercase one (ASCII).\<close>

definition isupper :: "string \<Rightarrow> bool" where
  "isupper s = (list_ex is_upper_char s \<and> \<not> list_ex is_lower_char s)"

definition startswith :: "string \<Rightarrow> string \<Rightarrow> bool" where
  "startswith s p = (take (length p) s = p)"

text \<open>\<^verbatim>\<open>_is_config_field\<close>\<close>

definition is_config_field :: "string \<Rightarrow> bool" where
  "is_config_field s = (isupper s \<and> \<not> startswith s ''_'')"

definition hex_digit :: "nat \<Rightarrow> char" where
  "hex_digit n = (''0123456789abcdef'' ! (n mod 16))"

text \<open>\<^verbatim>\<open>bytes.hex()\<close>\<close>

definition bytes_hex :: "string \<Rightarrow> string" where
  "bytes_hex bs =
     concat (map (\<lambda>c. [hex_digit (of_char c div 16), hex_digit (of_char c mod 16)]) bs)"

text \<open>\<^verbatim>\<open>bytes(n).hex()\<close>\<close>

definition zero_bytes_hex :: "nat \<Rightarrow> string" where
  "zero_bytes_hex n = bytes_hex (replicate n (char_of (0::nat)))"

subsection \<open>Class dictionaries\<close>

definition QUARKSH_TO_JIAOZI :: int where
  "QUARKSH_TO_JIAOZI = 10 ^ 18"

definition TESTNET_PORSCHE :: int where
  "TESTNET_PORSCHE = 3"

text \<open>
  The value-carrying entries of each class's own \<^verbatim>\<open>__dict__\<close>, in
  declaration order. The functions and properties of a class are also entries of
  its \<^verbatim>\<open>__dict__\<close>; their names are all lowercase, so
  \<^verbatim>\<open>_is_config_field\<close> rejects them; the properties are listed in
  \<open>class_props\<close>.
\<close>

fun class_dict :: "cls \<Rightarrow> pydict" where
  "class_dict RootGenesis =
    [(''__module__'', VStr ''quarkchain.config''),
     (''VERSION'', VInt 0),
     (''HEIGHT'', VInt 0),
     (''SHARD_SIZE'', VInt 32),
     (''HASH_PREV_BLOCK'', VStr (zero_bytes_hex 32)),
     (''HASH_MERKLE_ROOT'', VStr (zero_bytes_hex 32)),
     (''TIMESTAMP'', VInt 1519147489),
     (''DIFFICULTY'', VInt 1000000),
     (''NONCE'', VInt 0),
     (''__doc__'', VNone)]"
| "class_dict ShardGenesis =
    [(''__module__'', VStr ''quarkchain.config''),
     (''ROOT_HEIGHT'', VInt 0),
     (''VERSION'', VInt 0),
     (''HEIGHT'', VInt 0),
     (''HASH_PREV_MINOR_BLOCK'', VStr (zero_bytes_hex 32)),
     (''HASH_MERKLE_ROOT'', VStr (zero_bytes_hex 32)),
     (''EXTRA_DATA'', VStr (bytes_hex
        ''It was the best of times, it was the worst of times, ... - Charles Dickens'')),
     (''TIMESTAMP'', VInt 1519147489),
     (''DIFFICULTY'', VInt 10000),
     (''GAS_LIMIT'', VInt (30000 * 400)),
     (''NONCE'', VInt 0),
     (''ALLOC'', VNone),
     (''__doc__'', VNone)]"
| "class_dict POWConfig =
    [(''__module__'', VStr ''quarkchain.config''),
     (''TARGET_BLOCK_TIME'', VInt 10),
     (''REMOTE_MINE'', VBool False),
     (''__doc__'', VNone)]"
| "class_dict ShardConfig =
    [(''__module__'', VStr ''quarkchain.config''),
     (''CONSENSUS_TYPE'', VEnum NONE),
     (''CONSENSUS_CONFIG'', VNone),
     (''GENESIS'', VNone),
     (''COINBASE_ADDRESS'', VStr (zero_bytes_hex 24)),
     (''COINBASE_AMOUNT'', VInt (5 * QUARKSH_TO_JIAOZI)),
     (''GAS_LIMIT_EMA_DENOMINATOR'', VInt 1024),
     (''GAS_LIMIT_ADJUSTMENT_FACTOR'', VInt 1024),
     (''GAS_LIMIT_MINIMUM'', VInt 5000),
     (''GAS_LIMIT_MAXIMUM'', VInt (2 ^ 63 - 1)),
     (''GAS_LIMIT_USAGE_ADJUSTMENT_NUMERATOR'', VInt 3),
     (''GAS_LIMIT_USAGE_ADJUSTMENT_DENOMINATOR'', VInt 2),
     (''DIFFICULTY_ADJUSTMENT_CUTOFF_TIME'', VInt 7),
     (''DIFFICULTY_ADJUSTMENT_FACTOR'', VInt 512),
     (''EXTRA_SHARD_BLOCKS_IN_ROOT_BLOCK'', VInt 3),
     (''__doc__'', VNone)]"
| "class_dict RootConfig =
    [(''__module__'', VStr ''quarkchain.config''),
     (''MAX_STALE_ROOT_BLOCK_HEIGHT_DIFF'', VInt 60),
     (''CONSENSUS_TYPE'', VEnum NONE),
     (''CONSENSUS_CONFIG'', VNone),
     (''GENESIS'', VNone),
     (''COINBASE_ADDRESS'', VStr (zero_bytes_hex 24)),
     (''COINBASE_AMOUNT'', VInt (120 * QUARKSH_TO_JIAOZI)),
     (''DIFFICULTY_ADJUSTMENT_CUTOFF_TIME'', VInt 40),
     (''DIFFICULTY_ADJUSTMENT_FACTOR'', VInt 1024),
     (''__doc__'', VNone)]"
| "class_dict QuarkChainConfig =
    [(''__module__'', VStr ''quarkchain.config''),
     (''SHARD_SIZE'', VInt 8),
     (''MAX_NEIGHBORS'', VInt 32),
     (''NETWORK_ID'', VInt TESTNET_PORSCHE),
     (''TRANSACTION_QUEUE_SIZE_LIMIT_PER_SHARD'', VInt 10000),
     (''BLOCK_EXTRA_DATA_SIZE_LIMIT'', VInt 1024),
     (''PROOF_OF_PROGRESS_BLOCKS'', VInt 1),
     (''GUARDIAN_PUBLIC_KEY'', VStr
        ''ab856abd0983a82972021e454fcf66ed5940ed595b0898bcd75cbe2d0a51a00f5358b566df22395a2a8bf6c022c1d51a2c3defe654e91a8d244947783029694d''),
     (''GUARDIAN_PRIVATE_KEY'', VNone),
     (''P2P_PROTOCOL_VERSION'', VInt 0),
     (''P2P_COMMAND_SIZE_LIMIT'', VInt (2 ^ 32 - 1)),
     (''SKIP_ROOT_DIFFICULTY_CHECK'', VBool False),
     (''SKIP_MINOR_DIFFICULTY_CHECK'', VBool False),
     (''ROOT'', VNone),
     (''SHARD_LIST'', VNone),
     (''REWARD_TAX_RATE'', VFloat (1 / 2)),
     (''__doc__'', VNone)]"

text \<open>
  The properties each class defines, with whether the property has a setter.
\<close>

fun class_props :: "cls \<Rightarrow> (string \<times> bool) list" where
  "class_props ShardConfig =
    [(''root_config'', True),
     (''max_blocks_per_shard_in_one_root_block'', False),
     (''max_stale_minor_block_height_diff'', False),
     (''max_minor_blocks_in_memory'', False)]"
| "class_props RootConfig = [(''max_root_blocks_in_memory'', False)]"
| "class_props QuarkChainConfig =
    [(''reward_tax_rate'', False),
     (''guardian_public_key'', False),
     (''guardian_private_key'', False)]"
| "class_props _ = []"

text \<open>
  Reading a plain attribute (one that is not a property): the instance dictionary
  first, then the class dictionary.
\<close>

definition getattr :: "cls \<Rightarrow> pydict \<Rightarrow> string \<Rightarrow> error + pyval" where
  "getattr c inst k =
     (case map_of inst k of
        Some v \<Rightarrow> Inr v
      | None \<Rightarrow> (case map_of (class_dict c) k of
                   Some v \<Rightarrow> Inr v
                 | None \<Rightarrow> Inl AttributeError))"

subsection \<open>BaseConfig\<close>

text \<open>
  \<^verbatim>\<open>BaseConfig.to_dict\<close>: for every entry \<open>(k, v)\<close> of the class dictionary whose
  name is a configuration field, the instance's value if the instance dictionary
  has the name, else the class default \<open>v\<close>.
\<close>

definition BaseConfig_to_dict :: "cls \<Rightarrow> pydict \<Rightarrow> pydict" where
  "BaseConfig_to_dict c inst =
     map (\<lambda>(k, v). (k, case map_of inst k of Some w \<Rightarrow> w | None \<Rightarrow> v))
       (filter (\<lambda>(k, v). is_config_field k) (class_dict c))"

text \<open>Size bounds used by the termination proofs below.\<close>

lemma size_pydict_member:
  "(k, v) \<in> set d \<Longrightarrow> size v < Suc (size_list (size_prod (\<lambda>x. 0) size) d)"
  by (induction d) auto

lemma size_class_dict: "(k, v) \<in> set (class_dict c) \<Longrightarrow> size v = 0"
  by (cases c) auto

lemma size_BaseConfig_to_dict:
  assumes "(k, v) \<in> set (BaseConfig_to_dict c inst)"
  shows "size v < size (VObj c inst)"
proof -
  from assms obtain d where d: "(k, d) \<in> set (class_dict c)"
    and v: "v = (case map_of inst k of Some w \<Rightarrow> w | None \<Rightarrow> d)"
    by (auto simp: BaseConfig_to_dict_def)
  show ?thesis
  proof (cases "map_of inst k")
    case None
    with v d show ?thesis by (simp add: size_class_dict)
  next
    case (Some w)
    then have "(k, w) \<in> set inst" by (rule map_of_SomeD)
    with v Some show ?thesis by (simp add: size_pydict_member)
  qed
qed

subsection \<open>Equality\<close>

text \<open>
  Python's \<^verbatim>\<open>==\<close> on the values of the model. Booleans, integers and floats
  compare by numeric value; lists compare elementwise; dictionaries compare as
  mappings; a configuration object compares with \<^verbatim>\<open>BaseConfig.__eq__\<close>, which
  builds the two dictionaries \<open>d1\<close> and \<open>d2\<close> of declared fields and compares
  them. An object never equals a value that is not an object: the other operand's
  class has no configuration field, so \<open>d2\<close> is empty and \<open>d1\<close> is not.
\<close>

definition num_of :: "pyval \<Rightarrow> rat option" where
  "num_of v = (case v of VBool b \<Rightarrow> Some (if b then 1 else 0)
     | VInt i \<Rightarrow> Some (of_int i) | VFloat r \<Rightarrow> Some r | _ \<Rightarrow> None)"

definition num_eq :: "rat \<Rightarrow> pyval \<Rightarrow> bool" where
  "num_eq x b = (case num_of b of Some y \<Rightarrow> x = y | None \<Rightarrow> False)"

definition dict_eq :: "(pyval \<Rightarrow> pyval \<Rightarrow> bool) \<Rightarrow> pydict \<Rightarrow> pydict \<Rightarrow> bool" where
  "dict_eq eq d1 d2 =
     (length d1 = length d2 \<and>
      list_all (\<lambda>(k, v). case map_of d2 k of None \<Rightarrow> False | Some w \<Rightarrow> eq v w) d1)"

lemma dict_eq_cong [fundef_cong]:
  "d1 = e1 \<Longrightarrow> d2 = e2 \<Longrightarrow>
   (\<And>k v w. (k, v) \<in> set e1 \<Longrightarrow> (k, w) \<in> set e2 \<Longrightarrow> eq v w = eq' v w) \<Longrightarrow>
   dict_eq eq d1 d2 = dict_eq eq' e1 e2"
  unfolding dict_eq_def list_all_iff
  by (intro conj_cong ball_cong refl; clarsimp split: option.splits; blast dest: map_of_SomeD)

function py_eq :: "pyval \<Rightarrow> pyval \<Rightarrow> bool" where
  "py_eq VNone b = (b = VNone)"
| "py_eq (VBool x) b = num_eq (if x then 1 else 0) b"
| "py_eq (VInt i) b = num_eq (of_int i) b"
| "py_eq (VFloat r) b = num_eq r b"
| "py_eq (VStr s) b = (b = VStr s)"
| "py_eq (VEnum e) b = (b = VEnum e)"
| "py_eq (VList xs) b = (case b of VList ys \<Rightarrow> list_all2 py_eq xs ys | _ \<Rightarrow> False)"
| "py_eq (VDict d1) b = (case b of VDict d2 \<Rightarrow> dict_eq py_eq d1 d2 | _ \<Rightarrow> False)"
| "py_eq (VObj c1 i1) b =
     (case b of
        VObj c2 i2 \<Rightarrow> dict_eq py_eq (BaseConfig_to_dict c1 i1) (BaseConfig_to_dict c2 i2)
      | _ \<Rightarrow> False)"
  by pat_completeness auto
termination
proof (relation "measure (\<lambda>(a, b). size a + size b)", goal_cases)
  case 1
  show ?case by simp
next
  case (2 xs b ys x y)
  then have "size x \<le> size_list size xs" "size y \<le> size_list size ys"
    by (simp_all add: size_list_estimation')
  with 2 show ?case by simp
next
  case (3 d1 b d2 k v w)
  then show ?case using size_pydict_member[of k v d1] size_pydict_member[of k w d2] by simp
next
  case (4 c1 i1 b c2 i2 k v w)
  then show ?case
    using size_BaseConfig_to_dict[of k v c1 i1] size_BaseConfig_to_dict[of k w c2 i2] by simp
qed

subsection \<open>Built-in operations on values\<close>

definition has_key :: "pydict \<Rightarrow> string \<Rightarrow> bool" where
  "has_key d k = (map_of d k \<noteq> None)"

text \<open>Truth value of a value, as \<^verbatim>\<open>if x:\<close> takes it.\<close>

fun truthy :: "pyval \<Rightarrow> bool" where
  "truthy VNone = False"
| "truthy (VBool b) = b"
| "truthy (VInt i) = (i \<noteq> 0)"
| "truthy (VFloat r) = (r \<noteq> 0)"
| "truthy (VStr s) = (s \<noteq> [])"
| "truthy (VEnum e) = True"
| "truthy (VList xs) = (xs \<noteq> [])"
| "truthy (VDict d) = (d \<noteq> [])"
| "truthy (VObj c inst) = True"

fun enum_name :: "ConsensusType \<Rightarrow> string" where
  "enum_name NONE = ''NONE''"
| "enum_name POW_ETHASH = ''POW_ETHASH''"
| "enum_name POW_SHA3SHA3 = ''POW_SHA3SHA3''"
| "enum_name POW_SIMULATE = ''POW_SIMULATE''"
| "enum_name POW_QKCHASH = ''POW_QKCHASH''"

text \<open>
  \<^verbatim>\<open>x.name\<close>: the member name of an enum member; on a configuration object a
  plain attribute called \<^verbatim>\<open>name\<close>; no other value of the model has it.
\<close>

fun attr_name :: "pyval \<Rightarrow> error + pyval" where
  "attr_name (VEnum e) = Inr (VStr (enum_name e))"
| "attr_name (VObj c inst) = getattr c inst ''name''"
| "attr_name _ = Inl AttributeError"

text \<open>Iterating a value: a list, the keys of a dictionary, the characters of a string.\<close>

fun py_iter :: "pyval \<Rightarrow> error + pyval list" where
  "py_iter (VList xs) = Inr xs"
| "py_iter (VDict d) = Inr (map (\<lambda>(k, v). VStr k) d)"
| "py_iter (VStr s) = Inr (map (\<lambda>c. VStr [c]) s)"
| "py_iter _ = Inl TypeError"

lemma size_py_iter: "py_iter v = Inr xs \<Longrightarrow> x \<in> set xs \<Longrightarrow> size x < Suc (size v)"
proof (cases v)
  case (VList ys)
  assume "py_iter v = Inr xs" "x \<in> set xs"
  with VList have "size x \<le> size_list size ys" by (simp add: size_list_estimation')
  with VList show ?thesis by simp
qed auto

lemma size_getattr: "getattr c inst k = Inr v \<Longrightarrow> size v < size (VObj c inst)"
  by (auto simp: getattr_def size_class_dict size_pydict_member split: option.splits dest!: map_of_SomeD)

text \<open>A list comprehension whose body may raise: the first error wins.\<close>

fun mapM :: "('a \<Rightarrow> error + 'b) \<Rightarrow> 'a list \<Rightarrow> error + 'b list" where
  "mapM f [] = Inr []"
| "mapM f (x # xs) =
     (case f x of
        Inl e \<Rightarrow> Inl e
      | Inr y \<Rightarrow> (case mapM f xs of Inl e \<Rightarrow> Inl e | Inr ys \<Rightarrow> Inr (y # ys)))"

lemma mapM_cong [fundef_cong]:
  "xs = ys \<Longrightarrow> (\<And>x. x \<in> set ys \<Longrightarrow> f x = g x) \<Longrightarrow> mapM f xs = mapM g ys"
  by (induction ys arbitrary: xs) (auto split: sum.splits)

subsection \<open>Encoding: \<^verbatim>\<open>to_dict\<close>\<close>

text \<open>
  \<open>to_dict c inst\<close> is the \<^verbatim>\<open>to_dict\<close> method that class \<open>c\<close> defines or
  inherits, run on an instance with dictionary \<open>inst\<close>. \<open>call_to_dict v\<close> is the
  expression \<^verbatim>\<open>v.to_dict()\<close>: attribute lookup finds an instance attribute of
  that name before the method (the value found is not callable), and a value that
  is not a configuration object has no such attribute.
\<close>

function to_dict :: "cls \<Rightarrow> pydict \<Rightarrow> error + pyval"
  and call_to_dict :: "pyval \<Rightarrow> error + pyval" where
  "to_dict RootGenesis inst = Inr (VDict (BaseConfig_to_dict RootGenesis inst))"
| "to_dict POWConfig inst = Inr (VDict (BaseConfig_to_dict POWConfig inst))"
| "to_dict ShardGenesis inst =
     Inr (VDict (AList.update ''ALLOC'' (VDict []) (BaseConfig_to_dict ShardGenesis inst)))"
| "to_dict ShardConfig inst =
     (let ret = BaseConfig_to_dict ShardConfig inst in
      case getattr ShardConfig inst ''CONSENSUS_TYPE'' of Inl e \<Rightarrow> Inl e | Inr ct \<Rightarrow>
      case attr_name ct of Inl e \<Rightarrow> Inl e | Inr nm \<Rightarrow>
      let ret = AList.update ''CONSENSUS_TYPE'' nm ret in
      if py_eq ct (VEnum NONE) then
        Inr (VDict (AList.delete ''GENESIS'' (AList.delete ''CONSENSUS_CONFIG'' ret)))
      else
        case getattr ShardConfig inst ''CONSENSUS_CONFIG'' of Inl e \<Rightarrow> Inl e | Inr cc \<Rightarrow>
        case call_to_dict cc of Inl e \<Rightarrow> Inl e | Inr ccd \<Rightarrow>
        let ret = AList.update ''CONSENSUS_CONFIG'' ccd ret in
        case getattr ShardConfig inst ''GENESIS'' of Inl e \<Rightarrow> Inl e | Inr g \<Rightarrow>
        if truthy g then
          case call_to_dict g of Inl e \<Rightarrow> Inl e | Inr gd \<Rightarrow>
          Inr (VDict (AList.update ''GENESIS'' gd ret))
        else Inr (VDict ret))"
| "to_dict RootConfig inst =
     (let ret = BaseConfig_to_dict RootConfig inst in
      case getattr RootConfig inst ''CONSENSUS_TYPE'' of Inl e \<Rightarrow> Inl e | Inr ct \<Rightarrow>
      case attr_name ct of Inl e \<Rightarrow> Inl e | Inr nm \<Rightarrow>
      let ret = AList.update ''CONSENSUS_TYPE'' nm ret in
      if py_eq ct (VEnum NONE) then
        Inr (VDict (AList.delete ''GENESIS'' (AList.delete ''CONSENSUS_CONFIG'' ret)))
      else
        case getattr RootConfig inst ''CONSENSUS_CONFIG'' of Inl e \<Rightarrow> Inl e | Inr cc \<Rightarrow>
        case call_to_dict cc of Inl e \<Rightarrow> Inl e | Inr ccd \<Rightarrow>
        let ret = AList.update ''CONSENSUS_CONFIG'' ccd ret in
        case getattr RootConfig inst ''GENESIS'' of Inl e \<Rightarrow> Inl e | Inr g \<Rightarrow>
        case call_to_dict g of Inl e \<Rightarrow> Inl e | Inr gd \<Rightarrow>
        Inr (VDict (AList.update ''GENESIS'' gd ret)))"
| "to_dict QuarkChainConfig inst =
     (let ret = BaseConfig_to_dict QuarkChainConfig inst in
      case getattr QuarkChainConfig inst ''ROOT'' of Inl e \<Rightarrow> Inl e | Inr rt \<Rightarrow>
      case call_to_dict rt of Inl e \<Rightarrow> Inl e | Inr rd \<Rightarrow>
      let ret = AList.update ''ROOT'' rd ret in
      case getattr QuarkChainConfig inst ''SHARD_LIST'' of Inl e \<Rightarrow> Inl e | Inr sl \<Rightarrow>
      case py_iter sl of Inl e \<Rightarrow> Inl e | Inr ss \<Rightarrow>
      case mapM call_to_dict ss of Inl e \<Rightarrow> Inl e | Inr sds \<Rightarrow>
      Inr (VDict (AList.update ''SHARD_LIST'' (VList sds) ret)))"
| "call_to_dict (VObj c inst) =
     (if has_key inst ''to_dict'' then Inl TypeError else to_dict c inst)"
| "call_to_dict VNone = Inl AttributeError"
| "call_to_dict (VBool b) = Inl AttributeError"
| "call_to_dict (VInt i) = Inl AttributeError"
| "call_to_dict (VFloat r) = Inl AttributeError"
| "call_to_dict (VStr s) = Inl AttributeError"
| "call_to_dict (VEnum e) = Inl AttributeError"
| "call_to_dict (VList xs) = Inl AttributeError"
| "call_to_dict (VDict d) = Inl AttributeError"
  by pat_completeness auto
termination
  apply (relation "measure (\<lambda>x. case x of Inl (c, inst) \<Rightarrow> 2 * size (VObj c inst)
                                       | Inr v \<Rightarrow> 2 * size v + 1)")
  apply (auto dest!: size_getattr size_py_iter)
  done


subsection \<open>Constructors\<close>

definition RootGenesis_init :: pydict where
  "RootGenesis_init = []"

definition POWConfig_init :: pydict where
  "POWConfig_init = []"

definition ShardGenesis_init :: pydict where
  "ShardGenesis_init = [(''ALLOC'', VDict [])]"

definition ShardConfig_init :: pydict where
  "ShardConfig_init =
     [(''_root_config'', VNone), (''GENESIS'', VObj ShardGenesis ShardGenesis_init)]"

definition RootConfig_init :: pydict where
  "RootConfig_init = [(''GENESIS'', VObj RootGenesis RootGenesis_init)]"

text \<open>
  The root that \<^verbatim>\<open>QuarkChainConfig.__init__\<close> and \<^verbatim>\<open>update\<close> build (the same
  five statements in both): a fresh \<^verbatim>\<open>RootConfig\<close> with simulated proof of work,
  the given target block time, and the shard size written into its genesis.
\<close>

definition new_root :: "pyval \<Rightarrow> pyval \<Rightarrow> pyval" where
  "new_root block_time shard_size =
     (let r = RootConfig_init;
          r = AList.update ''CONSENSUS_TYPE'' (VEnum POW_SIMULATE) r;
          r = AList.update ''CONSENSUS_CONFIG'' (VObj POWConfig POWConfig_init) r;
          r = AList.update ''CONSENSUS_CONFIG''
                (VObj POWConfig (AList.update ''TARGET_BLOCK_TIME'' block_time POWConfig_init)) r;
          r = AList.update ''GENESIS''
                (VObj RootGenesis (AList.update ''SHARD_SIZE'' shard_size RootGenesis_init)) r
      in VObj RootConfig r)"

text \<open>The shard built by one iteration of the loop of \<^verbatim>\<open>__init__\<close>.\<close>

definition new_shard :: "pyval \<Rightarrow> pyval \<Rightarrow> pydict" where
  "new_shard rt block_time =
     (let s = ShardConfig_init;
          s = AList.update ''_root_config'' rt s;
          s = AList.update ''CONSENSUS_TYPE'' (VEnum POW_SIMULATE) s;
          s = AList.update ''CONSENSUS_CONFIG'' (VObj POWConfig POWConfig_init) s;
          s = AList.update ''CONSENSUS_CONFIG''
                (VObj POWConfig (AList.update ''TARGET_BLOCK_TIME'' block_time POWConfig_init)) s
      in s)"

text \<open>\<^verbatim>\<open>range(n)\<close>\<close>

fun py_range :: "pyval \<Rightarrow> error + int list" where
  "py_range (VInt n) = Inr [0..n - 1]"
| "py_range (VBool b) = Inr (if b then [0] else [])"
| "py_range _ = Inl TypeError"

definition QuarkChainConfig_init :: pydict where
  "QuarkChainConfig_init =
     (let self = [(''loadtest_accounts'', VList [])];
          rt = new_root (VInt 10) (VInt 8);  \<comment> \<open>\<^verbatim>\<open>self.SHARD_SIZE\<close> reads the class default\<close>
          self = AList.update ''ROOT'' rt self;
          self = AList.update ''SHARD_LIST''
                   (VList (map (\<lambda>i. VObj ShardConfig (new_shard rt (VInt 3))) [0..8 - 1])) self;
          self = AList.update ''_cached_guardian_private_key'' VNone self
      in self)"

text \<open>Calling a class: the instance dictionary its \<^verbatim>\<open>__init__\<close> leaves.\<close>

fun init :: "cls \<Rightarrow> pydict" where
  "init RootGenesis = RootGenesis_init"
| "init POWConfig = POWConfig_init"
| "init ShardGenesis = ShardGenesis_init"
| "init ShardConfig = ShardConfig_init"
| "init RootConfig = RootConfig_init"
| "init QuarkChainConfig = QuarkChainConfig_init"

subsection \<open>Decoding: \<^verbatim>\<open>from_dict\<close>\<close>

text \<open>
  \<^verbatim>\<open>setattr(config, k, v)\<close>. A property of the class takes the assignment: the
  setter of \<^verbatim>\<open>root_config\<close> stores the value under \<^verbatim>\<open>_root_config\<close>, a
  property without a setter raises. \<^verbatim>\<open>__class__\<close> accepts only a class,
  \<^verbatim>\<open>__dict__\<close> only a dictionary, which replaces the instance dictionary,
  and \<^verbatim>\<open>__weakref__\<close> is read-only. Any other name is stored in the instance
  dictionary.
\<close>

definition setattr :: "cls \<Rightarrow> pydict \<Rightarrow> string \<Rightarrow> pyval \<Rightarrow> error + pydict" where
  "setattr c inst k v =
     (case map_of (class_props c) k of
        Some settable \<Rightarrow>
          if settable then Inr (AList.update ''_root_config'' v inst) else Inl AttributeError
      | None \<Rightarrow>
          if k = ''__class__'' then Inl TypeError
          else if k = ''__dict__'' then (case v of VDict d \<Rightarrow> Inr d | _ \<Rightarrow> Inl TypeError)
          else if k = ''__weakref__'' then Inl AttributeError
          else Inr (AList.update k v inst))"

text \<open>\<^verbatim>\<open>d.items()\<close>\<close>

fun py_items :: "pyval \<Rightarrow> error + pydict" where
  "py_items (VDict d) = Inr d"
| "py_items (VObj c inst) = (if has_key inst ''items'' then Inl TypeError else Inl AttributeError)"
| "py_items _ = Inl AttributeError"

fun setattrs :: "cls \<Rightarrow> pydict \<Rightarrow> pydict \<Rightarrow> error + pydict" where
  "setattrs c inst [] = Inr inst"
| "setattrs c inst ((k, v) # kvs) =
     (case setattr c inst k v of Inl e \<Rightarrow> Inl e | Inr inst' \<Rightarrow> setattrs c inst' kvs)"


text \<open>\<^verbatim>\<open>BaseConfig.from_dict\<close>\<close>

definition BaseConfig_from_dict :: "cls \<Rightarrow> pyval \<Rightarrow> error + pydict" where
  "BaseConfig_from_dict c d =
     (case py_items d of Inl e \<Rightarrow> Inl e | Inr kvs \<Rightarrow> setattrs c (init c) kvs)"

text \<open>\<^verbatim>\<open>ConsensusType[x]\<close>: a lookup of \<open>x\<close> in the mapping of member names.\<close>

fun enum_lookup :: "pyval \<Rightarrow> error + ConsensusType" where
  "enum_lookup (VStr s) =
     (case filter (\<lambda>e. enum_name e = s) [NONE, POW_ETHASH, POW_SHA3SHA3, POW_SIMULATE, POW_QKCHASH] of
        [] \<Rightarrow> Inl KeyError
      | e # _ \<Rightarrow> Inr e)"
| "enum_lookup (VList xs) = Inl TypeError"
| "enum_lookup (VDict d) = Inl TypeError"
| "enum_lookup (VObj c inst) = Inl TypeError"
| "enum_lookup _ = Inl KeyError"

definition pow_types :: "ConsensusType list" where
  "pow_types = [POW_ETHASH, POW_SHA3SHA3, POW_SIMULATE, POW_QKCHASH]"

definition ShardConfig_from_dict :: "pyval \<Rightarrow> error + pydict" where
  "ShardConfig_from_dict d =
     (case BaseConfig_from_dict ShardConfig d of Inl e \<Rightarrow> Inl e | Inr config \<Rightarrow>
      case getattr ShardConfig config ''CONSENSUS_TYPE'' of Inl e \<Rightarrow> Inl e | Inr ctn \<Rightarrow>
      case enum_lookup ctn of Inl e \<Rightarrow> Inl e | Inr ct \<Rightarrow>
      let config = AList.update ''CONSENSUS_TYPE'' (VEnum ct) config in
      if ct \<in> set pow_types then
        case getattr ShardConfig config ''CONSENSUS_CONFIG'' of Inl e \<Rightarrow> Inl e | Inr cc \<Rightarrow>
        case BaseConfig_from_dict POWConfig cc of Inl e \<Rightarrow> Inl e | Inr pow \<Rightarrow>
        let config = AList.update ''CONSENSUS_CONFIG'' (VObj POWConfig pow) config in
        case getattr ShardConfig config ''GENESIS'' of Inl e \<Rightarrow> Inl e | Inr g \<Rightarrow>
        if truthy g then
          case BaseConfig_from_dict ShardGenesis g of Inl e \<Rightarrow> Inl e | Inr gen \<Rightarrow>
          Inr (AList.update ''GENESIS'' (VObj ShardGenesis gen) config)
        else Inr config
      else Inr config)"


text \<open>
  The assignment \<^verbatim>\<open>s.root_config = config.ROOT\<close> on an element of the decoded
  shard list; every element is a \<^verbatim>\<open>ShardConfig\<close>, whose property setter stores
  the root under \<^verbatim>\<open>_root_config\<close>.
\<close>

definition set_root_config :: "pyval \<Rightarrow> pydict \<Rightarrow> pydict" where
  "set_root_config rt s = AList.update ''_root_config'' rt s"



subsection \<open>Queries over the shard list\<close>

text \<open>
  Reading an attribute with an uppercase name, or \<^verbatim>\<open>_root_config\<close>, from any value:
  only a configuration object can have it.
\<close>

fun py_getattr :: "pyval \<Rightarrow> string \<Rightarrow> error + pyval" where
  "py_getattr (VObj c inst) k = getattr c inst k"
| "py_getattr _ k = Inl AttributeError"

fun str_lt :: "string \<Rightarrow> string \<Rightarrow> bool" where
  "str_lt [] [] = False"
| "str_lt [] (y # ys) = True"
| "str_lt (x # xs) [] = False"
| "str_lt (x # xs) (y # ys) = (if x = y then str_lt xs ys else (of_char x :: nat) < of_char y)"

text \<open>
  Python's \<^verbatim>\<open><\<close>: numbers by value, strings and lists lexicographically (a list
  comparison looks for the first pair of unequal elements), anything else is a
  \<^verbatim>\<open>TypeError\<close>.
\<close>

function py_lt :: "pyval \<Rightarrow> pyval \<Rightarrow> error + bool"
  and list_lt :: "pyval list \<Rightarrow> pyval list \<Rightarrow> error + bool" where
  "py_lt a b =
     (case (num_of a, num_of b) of
        (Some x, Some y) \<Rightarrow> Inr (x < y)
      | _ \<Rightarrow> (case (a, b) of
                (VStr s, VStr t) \<Rightarrow> Inr (str_lt s t)
              | (VList xs, VList ys) \<Rightarrow> list_lt xs ys
              | _ \<Rightarrow> Inl TypeError))"
| "list_lt [] [] = Inr False"
| "list_lt [] (y # ys) = Inr True"
| "list_lt (x # xs) [] = Inr False"
| "list_lt (x # xs) (y # ys) = (if py_eq x y then list_lt xs ys else py_lt x y)"
  by pat_completeness auto
termination
  by (relation "measure (\<lambda>x. case x of Inl (a, b) \<Rightarrow> 2 * size a
                                     | Inr (xs, ys) \<Rightarrow> 2 * size_list size xs + 1)")
     auto

text \<open>The indices \<open>i\<close> of the elements for which the condition holds, as \<^verbatim>\<open>enumerate\<close> counts them.\<close>

fun filter_ids :: "(pyval \<Rightarrow> error + bool) \<Rightarrow> nat \<Rightarrow> pyval list \<Rightarrow> error + nat list" where
  "filter_ids p i [] = Inr []"
| "filter_ids p i (x # xs) =
     (case p x of Inl e \<Rightarrow> Inl e | Inr b \<Rightarrow>
      case filter_ids p (Suc i) xs of Inl e \<Rightarrow> Inl e | Inr ids \<Rightarrow>
      Inr (if b then i # ids else ids))"

text \<open>The condition \<^verbatim>\<open>config.GENESIS\<close> of \<^verbatim>\<open>get_genesis_shard_ids\<close>.\<close>

definition has_genesis :: "pyval \<Rightarrow> error + bool" where
  "has_genesis config =
     (case py_getattr config ''GENESIS'' of Inl e \<Rightarrow> Inl e | Inr g \<Rightarrow> Inr (truthy g))"

definition get_genesis_shard_ids :: "pydict \<Rightarrow> error + nat list" where
  "get_genesis_shard_ids self =
     (case getattr QuarkChainConfig self ''SHARD_LIST'' of Inl e \<Rightarrow> Inl e | Inr sl \<Rightarrow>
      case py_iter sl of Inl e \<Rightarrow> Inl e | Inr ss \<Rightarrow>
      filter_ids has_genesis 0 ss)"

text \<open>
  The condition \<^verbatim>\<open>config.GENESIS and config.GENESIS.ROOT_HEIGHT < root_height\<close>.
\<close>

definition initialized_before :: "pyval \<Rightarrow> pyval \<Rightarrow> error + bool" where
  "initialized_before root_height config =
     (case py_getattr config ''GENESIS'' of Inl e \<Rightarrow> Inl e | Inr g \<Rightarrow>
      if truthy g then
        case py_getattr g ''ROOT_HEIGHT'' of Inl e \<Rightarrow> Inl e | Inr rh \<Rightarrow> py_lt rh root_height
      else Inr False)"

definition get_initialized_shard_ids_before_root_height :: "pydict \<Rightarrow> pyval \<Rightarrow> error + nat list" where
  "get_initialized_shard_ids_before_root_height self root_height =
     (case getattr QuarkChainConfig self ''SHARD_LIST'' of Inl e \<Rightarrow> Inl e | Inr sl \<Rightarrow>
      case py_iter sl of Inl e \<Rightarrow> Inl e | Inr ss \<Rightarrow>
      filter_ids (initialized_before root_height) 0 ss)"

subsection \<open>\<^verbatim>\<open>update\<close>\<close>

text \<open>
  \<^verbatim>\<open>Address.create_empty_account(i).serialize()\<close> is code of \<^verbatim>\<open>quarkchain.core\<close>;
  it is the parameter \<open>empty_account\<close>, from the index to the serialized bytes.
\<close>

definition update :: "(int \<Rightarrow> string) \<Rightarrow> pydict \<Rightarrow> pyval \<Rightarrow> pyval \<Rightarrow> pyval \<Rightarrow> error + pydict" where
  "update empty_account self shard_size root_block_time minor_block_time =
     (let self = AList.update ''SHARD_SIZE'' shard_size self;
          rt = new_root root_block_time shard_size;
          self = AList.update ''ROOT'' rt self;
          self = AList.update ''SHARD_LIST'' (VList []) self
      in case py_range shard_size of Inl e \<Rightarrow> Inl e | Inr ids \<Rightarrow>
         Inr (AList.update ''SHARD_LIST''
                (VList (map (\<lambda>i. VObj ShardConfig
                               (AList.update ''COINBASE_ADDRESS''
                                  (VStr (bytes_hex (empty_account i)))
                                  (new_shard rt minor_block_time)))
                          ids))
                self))"

subsection \<open>Arithmetic\<close>

text \<open>
  Numbers as the arithmetic of the derived properties sees them: an integer, a
  finite float (its exact value), or an infinite float (the sign).
\<close>

datatype pynum = NInt int | NFloat rat | NInf bool

text \<open>The exponent \<open>e\<close> with \<open>2 ^ e \<le> x < 2 ^ (e + 1)\<close>, for \<open>x > 0\<close>.\<close>

definition floor_log2 :: "rat \<Rightarrow> int" where
  "floor_log2 x =
     (let (n, d) = quotient_of x; e = bitlen n - bitlen d
      in if 2 powi e \<le> x then e else e - 1)"

definition round_half_even :: "rat \<Rightarrow> int" where
  "round_half_even x =
     (let f = \<lfloor>x\<rfloor>; r = x - of_int f
      in if r < 1 / 2 then f else if 1 / 2 < r then f + 1 else if even f then f else f + 1)"

text \<open>
  Rounding a rational to IEEE 754 binary64, to nearest with ties to even: 53
  significant bits, a smallest exponent of -1022 (below it the spacing stays
  \<open>2 ^ -1074\<close>). The result is not yet checked for overflow.
\<close>

definition round64 :: "rat \<Rightarrow> rat" where
  "round64 x =
     (if x = 0 then 0
      else let a = \<bar>x\<bar>; e = max (floor_log2 a) (- 1022); q = 2 powi (e - 52)
           in sgn x * of_int (round_half_even (a / q)) * q)"

text \<open>The float result of an operation whose exact result is \<open>x\<close>: it overflows to infinity.\<close>

definition fl :: "rat \<Rightarrow> pynum" where
  "fl x = (let r = round64 x in if 2 powi 1024 \<le> \<bar>r\<bar> then NInf (0 < r) else NFloat r)"

fun to_num :: "pyval \<Rightarrow> pynum option" where
  "to_num (VBool b) = Some (NInt (if b then 1 else 0))"
| "to_num (VInt i) = Some (NInt i)"
| "to_num (VFloat r) = Some (NFloat r)"
| "to_num _ = None"

text \<open>Converting an operand to float: an integer too large for a float raises.\<close>

fun to_float :: "pynum \<Rightarrow> error + pynum" where
  "to_float (NInt i) = (case fl (of_int i) of NInf s \<Rightarrow> Inl OverflowError | r \<Rightarrow> Inr r)"
| "to_float (NFloat r) = Inr (NFloat r)"
| "to_float (NInf s) = Inr (NInf s)"



text \<open>\<^verbatim>\<open>a / b\<close>: true division, of an earlier result by a value.\<close>

definition py_truediv :: "pynum \<Rightarrow> pyval \<Rightarrow> error + pynum" where
  "py_truediv a b =
     (case (a, to_num b) of
        (_, None) \<Rightarrow> Inl TypeError
      | (NInt x, Some (NInt y)) \<Rightarrow>
          if y = 0 then Inl ZeroDivisionError
          else (case fl (of_int x / of_int y) of NInf s \<Rightarrow> Inl OverflowError | r \<Rightarrow> Inr r)
      | (_, Some y) \<Rightarrow>
          (case to_float a of Inl e \<Rightarrow> Inl e | Inr x' \<Rightarrow>
           case to_float y of Inl e \<Rightarrow> Inl e | Inr y' \<Rightarrow>
           (case y' of
              NFloat q \<Rightarrow>
                if q = 0 then Inl ZeroDivisionError
                else (case x' of
                        NFloat p \<Rightarrow> Inr (fl (p / q))
                      | NInf s \<Rightarrow> Inr (NInf (s = (0 < q)))
                      | _ \<Rightarrow> Inl TypeError)
            | _ \<Rightarrow> Inl TypeError)))"

text \<open>\<^verbatim>\<open>int(x)\<close> of a float: truncation towards zero.\<close>

fun py_int :: "pynum \<Rightarrow> error + int" where
  "py_int (NInt i) = Inr i"
| "py_int (NFloat r) = Inr (if 0 \<le> r then \<lfloor>r\<rfloor> else \<lceil>r\<rceil>)"
| "py_int (NInf s) = Inl OverflowError"

text \<open>\<^verbatim>\<open>k + v\<close> for an integer \<open>k\<close> and a value \<open>v\<close>.\<close>

definition py_add :: "int \<Rightarrow> pyval \<Rightarrow> error + pynum" where
  "py_add k v =
     (case to_num v of
        Some (NInt y) \<Rightarrow> Inr (NInt (k + y))
      | Some (NFloat q) \<Rightarrow>
          (case to_float (NInt k) of
             Inl e \<Rightarrow> Inl e
           | Inr (NFloat p) \<Rightarrow> Inr (fl (p + q))
           | Inr _ \<Rightarrow> Inl TypeError)
      | _ \<Rightarrow> Inl TypeError)"


subsection \<open>Derived properties of a shard\<close>

text \<open>The property \<^verbatim>\<open>root_config\<close> returns \<^verbatim>\<open>self._root_config\<close>.\<close>

definition root_config :: "pydict \<Rightarrow> error + pyval" where
  "root_config self = getattr ShardConfig self ''_root_config''"

text \<open>The chain \<^verbatim>\<open>x.CONSENSUS_CONFIG.TARGET_BLOCK_TIME\<close>.\<close>

definition target_block_time :: "pyval \<Rightarrow> error + pyval" where
  "target_block_time x =
     (case py_getattr x ''CONSENSUS_CONFIG'' of Inl e \<Rightarrow> Inl e | Inr cc \<Rightarrow>
      py_getattr cc ''TARGET_BLOCK_TIME'')"

definition max_blocks_per_shard_in_one_root_block :: "pydict \<Rightarrow> error + pynum" where
  "max_blocks_per_shard_in_one_root_block self =
     (case root_config self of Inl e \<Rightarrow> Inl e | Inr rt \<Rightarrow>
      case target_block_time rt of Inl e \<Rightarrow> Inl e | Inr a \<Rightarrow>
      case target_block_time (VObj ShardConfig self) of Inl e \<Rightarrow> Inl e | Inr b \<Rightarrow>
      case (case to_num a of None \<Rightarrow> Inl TypeError | Some x \<Rightarrow> py_truediv x b) of
        Inl e \<Rightarrow> Inl e | Inr q \<Rightarrow>
      case py_int q of Inl e \<Rightarrow> Inl e | Inr k \<Rightarrow>
      case getattr ShardConfig self ''EXTRA_SHARD_BLOCKS_IN_ROOT_BLOCK'' of
        Inl e \<Rightarrow> Inl e | Inr extra \<Rightarrow>
      py_add k extra)"



subsection \<open>The reward tax rate\<close>

text \<open>
  The loop of \<^verbatim>\<open>Fraction.limit_denominator\<close>: the convergents \<open>p0 / q0\<close> and
  \<open>p1 / q1\<close> of the continued fraction of \<open>n / d\<close>, until the next denominator
  would exceed the bound. Floor division by zero raises.
\<close>

function limit_loop :: "int \<Rightarrow> int \<Rightarrow> int \<Rightarrow> int \<Rightarrow> int \<Rightarrow> int \<Rightarrow> int
    \<Rightarrow> error + (int \<times> int \<times> int \<times> int)" where
  "limit_loop max_denominator p0 q0 p1 q1 n d =
     (if d = 0 then Inl ZeroDivisionError
      else let a = n div d; q2 = q0 + a * q1
           in if max_denominator < q2 then Inr (p0, q0, p1, q1)
              else limit_loop max_denominator p1 q1 (p0 + a * p1) q2 d (n - a * d))"
  by pat_completeness auto
termination
proof (relation "measure (\<lambda>(m, p0, q0, p1, q1, n, d). nat \<bar>d\<bar>)", goal_cases)
  case 1
  show ?case by simp
next
  case (2 m p0 q0 p1 q1 n d a q2)
  then have "n - a * d = n mod d" by (simp add: minus_mult_div_eq_mod mult.commute)
  moreover have "\<bar>n mod d\<bar> < \<bar>d\<bar>" using 2(1) by (rule abs_mod_less)
  ultimately show ?case by simp
qed

text \<open>\<^verbatim>\<open>Fraction(n, d)\<close> for two integers.\<close>

definition Fraction :: "int \<Rightarrow> int \<Rightarrow> error + rat" where
  "Fraction n d = (if d = 0 then Inl ZeroDivisionError else Inr (Fract n d))"

text \<open>
  \<^verbatim>\<open>Fraction.limit_denominator(max_denominator)\<close>: the closest fraction to \<open>x\<close>
  with a denominator of at most \<open>max_denominator\<close>.
\<close>

definition limit_denominator :: "rat \<Rightarrow> int \<Rightarrow> error + rat" where
  "limit_denominator x max_denominator =
     (let (n, d) = quotient_of x in
      if max_denominator < 1 then Inl ValueError
      else if d \<le> max_denominator then Inr x
      else case limit_loop max_denominator 0 1 1 0 n d of Inl e \<Rightarrow> Inl e
        | Inr (p0, q0, p1, q1) \<Rightarrow>
            if q1 = 0 then Inl ZeroDivisionError
            else let k = (max_denominator - q0) div q1 in
              case Fraction (p0 + k * p1) (q0 + k * q1) of Inl e \<Rightarrow> Inl e | Inr bound1 \<Rightarrow>
              case Fraction p1 q1 of Inl e \<Rightarrow> Inl e | Inr bound2 \<Rightarrow>
              if \<bar>bound2 - x\<bar> \<le> \<bar>bound1 - x\<bar> then Inr bound2 else Inr bound1)"

text \<open>The assertion \<^verbatim>\<open>ret.denominator <= 100\<close> on the limited fraction.\<close>

definition assert_percent :: "error + rat \<Rightarrow> error + rat" where
  "assert_percent r =
     (case r of
        Inl e \<Rightarrow> Inl e
      | Inr ret \<Rightarrow> if snd (quotient_of ret) \<le> 100 then Inr ret else Inl AssertionError)"

text \<open>
  \<^verbatim>\<open>reward_tax_rate\<close>. \<^verbatim>\<open>Fraction(x)\<close> is exact on a number and rejects
  every other value of the model but a string, which it parses; the model leaves
  strings out: the result is \<open>None\<close> there.
\<close>

definition reward_tax_rate :: "pydict \<Rightarrow> (error + rat) option" where
  "reward_tax_rate self =
     (case getattr QuarkChainConfig self ''REWARD_TAX_RATE'' of
        Inl e \<Rightarrow> Some (Inl e)
      | Inr v \<Rightarrow>
          (case v of
             VStr s \<Rightarrow> None
           | _ \<Rightarrow>
             (case num_of v of
                Some x \<Rightarrow> Some (assert_percent (limit_denominator x 1000000))
              | None \<Rightarrow> Some (Inl TypeError))))"

section \<open>Properties\<close>

subsection \<open>Dictionaries of declared fields\<close>

lemma map_of_map_snd:
  "map_of (map (\<lambda>(k, v). (k, f k v)) xs) k = map_option (f k) (map_of xs k)"
  by (induction xs) auto

lemma map_of_filter_fst:
  "map_of (filter (\<lambda>(k, v). P k) xs) k = (if P k then map_of xs k else None)"
  by (induction xs) auto

lemma map_of_BaseConfig_to_dict:
  "map_of (BaseConfig_to_dict c inst) k =
     (if is_config_field k
      then map_option (\<lambda>v. case map_of inst k of Some w \<Rightarrow> w | None \<Rightarrow> v) (map_of (class_dict c) k)
      else None)"
  by (simp add: BaseConfig_to_dict_def map_of_map_snd map_of_filter_fst)

text \<open>
  C9. Whatever the instance dictionary of a \<^verbatim>\<open>ShardGenesis\<close> holds under
  \<^verbatim>\<open>ALLOC\<close>, \<^verbatim>\<open>to_dict\<close> succeeds and returns a dictionary that maps \<^verbatim>\<open>ALLOC\<close>
  to the empty dictionary; every other key \<open>k\<close> is present exactly when it is a
  declared field of the class, with the instance's value if the instance has one
  and the class default otherwise.
\<close>

theorem ShardGenesis_to_dict_ALLOC_empty:
  "\<exists>d. to_dict ShardGenesis inst = Inr (VDict d) \<and>
       map_of d ''ALLOC'' = Some (VDict []) \<and>
       (\<forall>k. k \<noteq> ''ALLOC'' \<longrightarrow>
          map_of d k =
            (if is_config_field k
             then (case map_of (class_dict ShardGenesis) k of
                     None \<Rightarrow> None
                   | Some dflt \<Rightarrow> Some (case map_of inst k of Some w \<Rightarrow> w | None \<Rightarrow> dflt))
             else None))"
  by (auto simp: update_conv' map_of_BaseConfig_to_dict split: option.splits)

theorem ShardGenesis_to_dict_ALLOC_empty_witness:
  "\<exists>d. to_dict ShardGenesis [(''ALLOC'', VDict [(''00'', VInt 5)]), (''DIFFICULTY'', VInt 7)]
         = Inr (VDict d) \<and>
       map_of d ''ALLOC'' = Some (VDict []) \<and>
       map_of d ''DIFFICULTY'' = Some (VInt 7) \<and>
       map_of d ''NONCE'' = Some (VInt 0) \<and>
       map_of d ''nonce'' = None"
proof -
  from ShardGenesis_to_dict_ALLOC_empty
    [of "[(''ALLOC'', VDict [(''00'', VInt 5)]), (''DIFFICULTY'', VInt 7)]"]
  obtain d where d: "to_dict ShardGenesis [(''ALLOC'', VDict [(''00'', VInt 5)]), (''DIFFICULTY'', VInt 7)] = Inr (VDict d)"
    "map_of d ''ALLOC'' = Some (VDict [])"
    and rest: "\<And>k. k \<noteq> ''ALLOC'' \<Longrightarrow> map_of d k =
            (if is_config_field k
             then (case map_of (class_dict ShardGenesis) k of
                     None \<Rightarrow> None
                   | Some dflt \<Rightarrow> Some (case map_of [(''ALLOC'', VDict [(''00'', VInt 5)]), (''DIFFICULTY'', VInt 7)] k of Some w \<Rightarrow> w | None \<Rightarrow> dflt))
             else None)"
    by blast
  have f: "is_config_field ''DIFFICULTY''" "is_config_field ''NONCE''" "\<not> is_config_field ''nonce''"
    by (simp_all add: is_config_field_def isupper_def startswith_def is_upper_char_def is_lower_char_def)
  have "map_of d ''DIFFICULTY'' = Some (VInt 7)" using rest[of "''DIFFICULTY''"] f by simp
  moreover have "map_of d ''NONCE'' = Some (VInt 0)" using rest[of "''NONCE''"] f by simp
  moreover have "map_of d ''nonce'' = None" using rest[of "''nonce''"] f by simp
  ultimately show ?thesis using d by blast
qed

subsection \<open>Consensus type \<^verbatim>\<open>NONE\<close>\<close>

lemmas field_defs = is_config_field_def isupper_def startswith_def is_upper_char_def
  is_lower_char_def

text \<open>
  C2. A \<^verbatim>\<open>ShardConfig\<close> as its constructor leaves it has consensus type
  \<^verbatim>\<open>NONE\<close>. Its encoding has neither a \<^verbatim>\<open>CONSENSUS_CONFIG\<close> nor a
  \<^verbatim>\<open>GENESIS\<close> key. Decoding that encoding leaves \<^verbatim>\<open>CONSENSUS_CONFIG\<close> at
  \<^verbatim>\<open>None\<close>, but \<^verbatim>\<open>GENESIS\<close> is set: it is the default \<^verbatim>\<open>ShardGenesis\<close> that
  the constructor creates.
\<close>

theorem decode_NONE_shard_has_genesis:
  "(case to_dict ShardConfig ShardConfig_init of
      Inr (VDict d) \<Rightarrow>
        map_of d ''CONSENSUS_TYPE'' = Some (VStr ''NONE'') \<and>
        map_of d ''CONSENSUS_CONFIG'' = None \<and> map_of d ''GENESIS'' = None \<and>
        (case ShardConfig_from_dict (VDict d) of
           Inr inst \<Rightarrow>
             getattr ShardConfig inst ''CONSENSUS_TYPE'' = Inr (VEnum NONE) \<and>
             getattr ShardConfig inst ''CONSENSUS_CONFIG'' = Inr VNone \<and>
             getattr ShardConfig inst ''GENESIS'' = Inr (VObj ShardGenesis ShardGenesis_init)
         | Inl e \<Rightarrow> False)
    | _ \<Rightarrow> False)"
  by (simp add: getattr_def BaseConfig_to_dict_def field_defs ShardConfig_init_def
      ShardGenesis_init_def num_eq_def num_of_def ShardConfig_from_dict_def
      BaseConfig_from_dict_def setattr_def pow_types_def)

subsection \<open>Genesis queries\<close>

lemma filter_ids_total:
  assumes "\<And>x. x \<in> set xs \<Longrightarrow> \<exists>b. p x = Inr b"
  shows "\<exists>ids. filter_ids p n xs = Inr ids \<and>
           (\<forall>i. i \<in> set ids \<longleftrightarrow> n \<le> i \<and> i < n + length xs \<and> p (xs ! (i - n)) = Inr True)"
  using assms
proof (induction xs arbitrary: n)
  case Nil
  then show ?case by simp
next
  case (Cons x xs)
  from Cons.prems obtain b where b: "p x = Inr b" by auto
  from Cons.IH[of "Suc n"] Cons.prems obtain ids where ids: "filter_ids p (Suc n) xs = Inr ids"
    and mem: "\<And>i. i \<in> set ids \<longleftrightarrow> Suc n \<le> i \<and> i < Suc n + length xs \<and> p (xs ! (i - Suc n)) = Inr True"
    by auto
  have "\<And>i. i \<in> set (if b then n # ids else ids) \<longleftrightarrow>
          n \<le> i \<and> i < n + length (x # xs) \<and> p ((x # xs) ! (i - n)) = Inr True"
  proof -
    fix i
    show "i \<in> set (if b then n # ids else ids) \<longleftrightarrow>
          n \<le> i \<and> i < n + length (x # xs) \<and> p ((x # xs) ! (i - n)) = Inr True"
    proof (cases "i = n")
      case True
      then show ?thesis using b mem[of n] by auto
    next
      case False
      then have "(x # xs) ! (i - n) = xs ! (i - Suc n)" if "n \<le> i"
        using that by (simp add: nth_Cons')
      with False show ?thesis using mem[of i] by auto
    qed
  qed
  with b ids show ?case by auto
qed

lemma py_lt_VInt: "py_lt (VInt a) (VInt b) = Inr (a < b)"
  by (simp add: num_of_def)

declare py_lt.simps [simp del]

text \<open>
  C8, as the code has it. Let the shard list be a list whose elements all have a
  \<^verbatim>\<open>GENESIS\<close> attribute that is either false (no genesis) or an object with an
  integer \<^verbatim>\<open>ROOT_HEIGHT\<close>. Then both queries return, a shard id is in
  \<^verbatim>\<open>get_initialized_shard_ids_before_root_height(h)\<close> exactly when the shard has a
  genesis whose root height is strictly less than \<open>h\<close>, and it is in
  \<^verbatim>\<open>get_genesis_shard_ids()\<close> exactly when the shard has a genesis; so a shard
  with no genesis is in neither.
\<close>

theorem initialized_shard_ids_strictly_before:
  assumes sl: "getattr QuarkChainConfig self ''SHARD_LIST'' = Inr (VList shards)"
    and ok: "\<And>s. s \<in> set shards \<Longrightarrow>
               \<exists>g. py_getattr s ''GENESIS'' = Inr g \<and>
                   (truthy g \<longrightarrow> (\<exists>rh. py_getattr g ''ROOT_HEIGHT'' = Inr (VInt rh)))"
  shows "\<exists>ids gids.
           get_initialized_shard_ids_before_root_height self (VInt h) = Inr ids \<and>
           get_genesis_shard_ids self = Inr gids \<and>
           (\<forall>i. i \<in> set ids \<longleftrightarrow>
                  i < length shards \<and>
                  (\<exists>g rh. py_getattr (shards ! i) ''GENESIS'' = Inr g \<and> truthy g \<and>
                          py_getattr g ''ROOT_HEIGHT'' = Inr (VInt rh) \<and> rh < h)) \<and>
           (\<forall>i. i \<in> set gids \<longleftrightarrow>
                  i < length shards \<and>
                  (\<exists>g. py_getattr (shards ! i) ''GENESIS'' = Inr g \<and> truthy g)) \<and>
           set ids \<subseteq> set gids"
proof -
  have p1: "\<exists>b. initialized_before (VInt h) s = Inr b" if "s \<in> set shards" for s
    using ok[OF that] by (auto simp: initialized_before_def py_lt_VInt)
  have p2: "\<exists>b. has_genesis s = Inr b" if "s \<in> set shards" for s
    using ok[OF that] by (auto simp: has_genesis_def)
  from filter_ids_total[of shards "initialized_before (VInt h)" 0] p1
  obtain ids where ids: "filter_ids (initialized_before (VInt h)) 0 shards = Inr ids"
    and m1: "\<And>i. i \<in> set ids \<longleftrightarrow> i < length shards \<and> initialized_before (VInt h) (shards ! i) = Inr True"
    by auto
  from filter_ids_total[of shards has_genesis 0] p2
  obtain gids where gids: "filter_ids has_genesis 0 shards = Inr gids"
    and m2: "\<And>i. i \<in> set gids \<longleftrightarrow> i < length shards \<and> has_genesis (shards ! i) = Inr True"
    by auto
  have c1: "initialized_before (VInt h) s = Inr True \<longleftrightarrow>
        (\<exists>g rh. py_getattr s ''GENESIS'' = Inr g \<and> truthy g \<and>
                py_getattr g ''ROOT_HEIGHT'' = Inr (VInt rh) \<and> rh < h)"
    if "s \<in> set shards" for s
    using ok[OF that] by (auto simp: initialized_before_def py_lt_VInt split: if_splits)
  have c2: "has_genesis s = Inr True \<longleftrightarrow> (\<exists>g. py_getattr s ''GENESIS'' = Inr g \<and> truthy g)"
    if "s \<in> set shards" for s
    using ok[OF that] by (auto simp: has_genesis_def)
  have r1: "get_initialized_shard_ids_before_root_height self (VInt h) = Inr ids"
    using sl ids by (simp add: get_initialized_shard_ids_before_root_height_def)
  have r2: "get_genesis_shard_ids self = Inr gids"
    using sl gids by (simp add: get_genesis_shard_ids_def)
  have s1: "\<forall>i. i \<in> set ids \<longleftrightarrow>
                  i < length shards \<and>
                  (\<exists>g rh. py_getattr (shards ! i) ''GENESIS'' = Inr g \<and> truthy g \<and>
                          py_getattr g ''ROOT_HEIGHT'' = Inr (VInt rh) \<and> rh < h)"
    using m1 c1 by (metis nth_mem)
  have s2: "\<forall>i. i \<in> set gids \<longleftrightarrow>
                  i < length shards \<and>
                  (\<exists>g. py_getattr (shards ! i) ''GENESIS'' = Inr g \<and> truthy g)"
    using m2 c2 by (metis nth_mem)
  have s3: "set ids \<subseteq> set gids" using s1 s2 by blast
  from r1 r2 s1 s2 s3 show ?thesis by blast
qed


text \<open>Two shards, the second without a genesis, and root height 1.\<close>

theorem initialized_shard_ids_strictly_before_witness:
  "\<exists>ids gids.
     get_initialized_shard_ids_before_root_height
       [(''SHARD_LIST'', VList [VObj ShardConfig ShardConfig_init,
                               VObj ShardConfig [(''GENESIS'', VNone)]])] (VInt 1) = Inr ids \<and>
     get_genesis_shard_ids
       [(''SHARD_LIST'', VList [VObj ShardConfig ShardConfig_init,
                               VObj ShardConfig [(''GENESIS'', VNone)]])] = Inr gids \<and>
     0 \<in> set ids \<and> 1 \<notin> set ids \<and> 0 \<in> set gids \<and> 1 \<notin> set gids"
proof -
  let ?shards = "[VObj ShardConfig ShardConfig_init, VObj ShardConfig [(''GENESIS'', VNone)]]"
  let ?self = "[(''SHARD_LIST'', VList ?shards)]"
  have sl: "getattr QuarkChainConfig ?self ''SHARD_LIST'' = Inr (VList ?shards)"
    by (simp add: getattr_def)
  have ok: "\<exists>g. py_getattr s ''GENESIS'' = Inr g \<and>
                (truthy g \<longrightarrow> (\<exists>rh. py_getattr g ''ROOT_HEIGHT'' = Inr (VInt rh)))"
    if "s \<in> set ?shards" for s
    using that by (auto simp: getattr_def ShardConfig_init_def ShardGenesis_init_def)
  from initialized_shard_ids_strictly_before[of ?self ?shards 1, OF sl ok]
  obtain ids gids where
    r: "get_initialized_shard_ids_before_root_height ?self (VInt 1) = Inr ids"
       "get_genesis_shard_ids ?self = Inr gids"
    and m1: "\<And>i. i \<in> set ids \<longleftrightarrow>
                  i < length ?shards \<and>
                  (\<exists>g rh. py_getattr (?shards ! i) ''GENESIS'' = Inr g \<and> truthy g \<and>
                          py_getattr g ''ROOT_HEIGHT'' = Inr (VInt rh) \<and> rh < 1)"
    and m2: "\<And>i. i \<in> set gids \<longleftrightarrow>
                  i < length ?shards \<and>
                  (\<exists>g. py_getattr (?shards ! i) ''GENESIS'' = Inr g \<and> truthy g)"
    by blast
  have "0 \<in> set ids"
    unfolding m1 by (simp add: getattr_def ShardConfig_init_def ShardGenesis_init_def)
  moreover have "1 \<notin> set ids"
    unfolding m1 by (simp add: getattr_def)
  moreover have "0 \<in> set gids"
    unfolding m2 by (simp add: getattr_def ShardConfig_init_def ShardGenesis_init_def)
  moreover have "1 \<notin> set gids"
    unfolding m2 by (simp add: getattr_def)
  ultimately show ?thesis using r by blast
qed

text \<open>
  C8 as stated fails: a shard whose genesis has root height 0 is not among the
  shards initialized before root height 0, although 0 \<open>\<le>\<close> 0.
\<close>

theorem initialized_shard_ids_excludes_equal_height:
  "get_initialized_shard_ids_before_root_height
     [(''SHARD_LIST'', VList [VObj ShardConfig ShardConfig_init])] (VInt 0) = Inr [] \<and>
   (case py_getattr (VObj ShardConfig ShardConfig_init) ''GENESIS'' of
      Inr g \<Rightarrow> truthy g \<and> py_getattr g ''ROOT_HEIGHT'' = Inr (VInt 0) \<and> (0::int) \<le> 0
    | Inl e \<Rightarrow> False)"
  by (simp add: get_initialized_shard_ids_before_root_height_def getattr_def
      initialized_before_def ShardConfig_init_def ShardGenesis_init_def py_lt_VInt)

subsection \<open>\<^verbatim>\<open>update\<close> rebuilds the root and the shard list\<close>

lemma hex_digit_inj:
  assumes "a < 16" "b < 16" "hex_digit a = hex_digit b"
  shows "a = b"
proof -
  have d: "distinct ''0123456789abcdef''" by simp
  have l: "length ''0123456789abcdef'' = 16" by simp
  from assms have "''0123456789abcdef'' ! a = ''0123456789abcdef'' ! b"
    by (simp add: hex_digit_def)
  with d l assms(1,2) show ?thesis by (metis nth_eq_iff_index_eq)
qed

lemma of_char_lt_256: "(of_char c :: nat) < 256"
  by (metis of_char_of of_char_mod_256 mod_less_divisor zero_less_numeral)

lemma bytes_hex_Cons:
  "bytes_hex (c # cs) = hex_digit (of_char c div 16) # hex_digit (of_char c mod 16) # bytes_hex cs"
  by (simp add: bytes_hex_def)

lemma bytes_hex_Nil: "bytes_hex [] = []"
  by (simp add: bytes_hex_def)

lemma bytes_hex_inj: "bytes_hex xs = bytes_hex ys \<Longrightarrow> xs = ys"
proof (induction xs arbitrary: ys)
  case Nil
  then show ?case by (cases ys) (simp_all add: bytes_hex_Nil bytes_hex_Cons)
next
  case (Cons x xs)
  then obtain y ys' where ys: "ys = y # ys'"
    by (cases ys) (simp_all add: bytes_hex_Nil bytes_hex_Cons)
  from Cons.prems ys have h: "hex_digit (of_char x div 16) = hex_digit (of_char y div 16)"
    "hex_digit (of_char x mod 16) = hex_digit (of_char y mod 16)"
    and t: "bytes_hex xs = bytes_hex ys'"
    by (simp_all add: bytes_hex_Cons)
  have "(of_char x :: nat) div 16 < 16" "(of_char y :: nat) div 16 < 16"
    using of_char_lt_256[of x] of_char_lt_256[of y] by arith+
  then have d: "(of_char x :: nat) div 16 = of_char y div 16"
    using h(1) by (intro hex_digit_inj)
  have "(of_char x :: nat) mod 16 = of_char y mod 16"
    using h(2) by (intro hex_digit_inj) simp_all
  with d have "(of_char x :: nat) = of_char y" by (metis div_mult_mod_eq)
  then have "x = y" by simp
  with Cons.IH[OF t] ys show ?case by simp
qed


lemma getattr_update_same [simp]: "getattr c (AList.update k v inst) k = Inr v"
  by (simp add: getattr_def update_conv')

lemma getattr_update_other:
  "k' \<noteq> k \<Longrightarrow> getattr c (AList.update k v inst) k' = getattr c inst k'"
  by (simp add: getattr_def update_conv')

lemma target_block_time_new_root: "target_block_time (new_root r sz) = Inr r"
  by (simp add: target_block_time_def new_root_def RootConfig_init_def POWConfig_init_def
      getattr_def)

lemma new_shard_props:
  "root_config (new_shard rt m) = Inr rt"
  "target_block_time (VObj ShardConfig (new_shard rt m)) = Inr m"
  by (simp_all add: root_config_def target_block_time_def new_shard_def ShardConfig_init_def
      POWConfig_init_def getattr_def)

lemma length_upto_nat: "length [0..int n - 1] = n"
  by simp

lemma nth_upto_nat: "i < n \<Longrightarrow> [0..int n - 1] ! i = int i"
  by (simp add: nth_upto)

text \<open>
  C5. For every aggregate, every shard count \<open>n\<close> and every \<open>r\<close> and \<open>m\<close>,
  \<^verbatim>\<open>update(n, r, m)\<close> returns and leaves \<^verbatim>\<open>SHARD_SIZE = n\<close>, a root that is the
  freshly built one (it does not depend on the prior root) with target block time
  \<open>r\<close>, and a shard list of exactly \<open>n\<close> freshly built shards (none of the prior
  list): shard \<open>i\<close> has target block time \<open>m\<close>, its root reference is the new root,
  and its coinbase address is the hex form of the empty-account address of \<open>i\<close>.
  The addresses are pairwise distinct when the address collaborator gives distinct
  bytes for distinct indices.
\<close>

theorem update_rebuilds_root_and_shards:
  assumes inj: "inj_on empty_account {0..<int n}"
  shows "\<exists>self' shards.
     update empty_account self (VInt (int n)) r m = Inr self' \<and>
     getattr QuarkChainConfig self' ''SHARD_SIZE'' = Inr (VInt (int n)) \<and>
     getattr QuarkChainConfig self' ''ROOT'' = Inr (new_root r (VInt (int n))) \<and>
     target_block_time (new_root r (VInt (int n))) = Inr r \<and>
     getattr QuarkChainConfig self' ''SHARD_LIST'' = Inr (VList shards) \<and>
     length shards = n \<and>
     (\<forall>i<n. \<exists>s. shards ! i = VObj ShardConfig s \<and>
        s = AList.update ''COINBASE_ADDRESS'' (VStr (bytes_hex (empty_account (int i))))
              (new_shard (new_root r (VInt (int n))) m) \<and>
        target_block_time (shards ! i) = Inr m \<and>
        root_config s = Inr (new_root r (VInt (int n))) \<and>
        getattr ShardConfig s ''COINBASE_ADDRESS'' = Inr (VStr (bytes_hex (empty_account (int i))))) \<and>
     distinct (map (\<lambda>s. py_getattr s ''COINBASE_ADDRESS'') shards)"
proof -
  let ?rt = "new_root r (VInt (int n))"
  let ?mk = "\<lambda>i. VObj ShardConfig
     (AList.update ''COINBASE_ADDRESS'' (VStr (bytes_hex (empty_account i))) (new_shard ?rt m))"
  let ?shards = "map ?mk [0..int n - 1]"
  let ?self' = "AList.update ''SHARD_LIST'' (VList ?shards)
     (AList.update ''SHARD_LIST'' (VList [])
       (AList.update ''ROOT'' ?rt (AList.update ''SHARD_SIZE'' (VInt (int n)) self)))"
  have u: "update empty_account self (VInt (int n)) r m = Inr ?self'"
    by (simp add: update_def Let_def)
  have a1: "getattr QuarkChainConfig ?self' ''SHARD_SIZE'' = Inr (VInt (int n))"
    by (simp add: getattr_update_other)
  have a2: "getattr QuarkChainConfig ?self' ''ROOT'' = Inr ?rt"
    by (simp add: getattr_update_other)
  have a3: "getattr QuarkChainConfig ?self' ''SHARD_LIST'' = Inr (VList ?shards)"
    by simp
  have a4: "length ?shards = n" by simp
  have a5: "\<exists>s. ?shards ! i = VObj ShardConfig s \<and>
        s = AList.update ''COINBASE_ADDRESS'' (VStr (bytes_hex (empty_account (int i))))
              (new_shard ?rt m) \<and>
        target_block_time (?shards ! i) = Inr m \<and>
        root_config s = Inr ?rt \<and>
        getattr ShardConfig s ''COINBASE_ADDRESS'' = Inr (VStr (bytes_hex (empty_account (int i))))"
    if "i < n" for i
  proof -
    have "?shards ! i = ?mk (int i)" using that by (simp add: nth_upto)
    moreover have "target_block_time (?mk (int i)) = Inr m"
      using new_shard_props(2)[of ?rt m]
      by (simp add: target_block_time_def getattr_update_other)
    moreover have "root_config (AList.update ''COINBASE_ADDRESS''
        (VStr (bytes_hex (empty_account (int i)))) (new_shard ?rt m)) = Inr ?rt"
      using new_shard_props(1)[of ?rt m] by (simp add: root_config_def getattr_update_other)
    ultimately show ?thesis by simp
  qed
  have a6: "distinct (map (\<lambda>s. py_getattr s ''COINBASE_ADDRESS'') ?shards)"
  proof -
    have eq: "map (\<lambda>s. py_getattr s ''COINBASE_ADDRESS'') ?shards =
          map (\<lambda>i. Inr (VStr (bytes_hex (empty_account i)))) [0..int n - 1]"
      by simp
    have "inj_on (\<lambda>i. (Inr (VStr (bytes_hex (empty_account i))) :: error + pyval))
        (set [0..int n - 1])"
      using inj by (auto simp: inj_on_def dest!: bytes_hex_inj)
    then have "distinct (map (\<lambda>i. (Inr (VStr (bytes_hex (empty_account i))) :: error + pyval))
        [0..int n - 1])"
      by (simp add: distinct_map)
    then show ?thesis unfolding eq .
  qed
  from u a1 a2 a3 a4 a5 a6 target_block_time_new_root[of r "VInt (int n)"]
  show ?thesis by blast
qed


text \<open>
  The example of the specification, \<^verbatim>\<open>update(4, 10, 5)\<close> on a default aggregate,
  with a one-byte address for each index.
\<close>

theorem update_rebuilds_root_and_shards_witness:
  "\<exists>self' shards.
     update (\<lambda>i. [char_of (nat i)]) QuarkChainConfig_init (VInt 4) (VInt 10) (VInt 5) = Inr self' \<and>
     getattr QuarkChainConfig self' ''SHARD_SIZE'' = Inr (VInt 4) \<and>
     getattr QuarkChainConfig self' ''SHARD_LIST'' = Inr (VList shards) \<and>
     length shards = 4 \<and>
     target_block_time (shards ! 3) = Inr (VInt 5) \<and>
     py_getattr (shards ! 3) ''COINBASE_ADDRESS'' = Inr (VStr ''03'') \<and>
     distinct (map (\<lambda>s. py_getattr s ''COINBASE_ADDRESS'') shards)"
proof -
  have inj: "inj_on (\<lambda>i. [char_of (nat i)]) {0..<int 4}"
  proof (rule inj_onI)
    fix x y :: int
    assume x: "x \<in> {0..<int 4}" and y: "y \<in> {0..<int 4}"
      and "[char_of (nat x)] = [char_of (nat y)]"
    then have "(of_char (char_of (nat x)) :: nat) = of_char (char_of (nat y))" by simp
    moreover have "nat x < 256" "nat y < 256" using x y by auto
    ultimately have "nat x = nat y" by (simp add: of_char_of)
    with x y show "x = y" by auto
  qed
  from update_rebuilds_root_and_shards[OF inj, of QuarkChainConfig_init "VInt 10" "VInt 5"]
  obtain self' shards where
    u: "update (\<lambda>i. [char_of (nat i)]) QuarkChainConfig_init (VInt (int 4)) (VInt 10) (VInt 5) = Inr self'"
    and a: "getattr QuarkChainConfig self' ''SHARD_SIZE'' = Inr (VInt (int 4))"
       "getattr QuarkChainConfig self' ''SHARD_LIST'' = Inr (VList shards)"
       "length shards = 4"
       "distinct (map (\<lambda>s. py_getattr s ''COINBASE_ADDRESS'') shards)"
    and each: "\<And>i. i < 4 \<Longrightarrow> \<exists>s. shards ! i = VObj ShardConfig s \<and>
        target_block_time (shards ! i) = Inr (VInt 5) \<and>
        getattr ShardConfig s ''COINBASE_ADDRESS'' = Inr (VStr (bytes_hex [char_of (nat (int i))]))"
    by blast
  from each[of 3] have "target_block_time (shards ! 3) = Inr (VInt 5)"
    and "py_getattr (shards ! 3) ''COINBASE_ADDRESS'' = Inr (VStr (bytes_hex [char_of (3::nat)]))"
    by auto
  moreover have "bytes_hex [char_of (3::nat)] = ''03''"
    by (simp add: bytes_hex_def hex_digit_def)
  ultimately show ?thesis using u a by auto
qed

subsection \<open>Decoding wires the root reference of every shard\<close>

lemma mapM_Inr_length: "mapM f xs = Inr ys \<Longrightarrow> length ys = length xs"
  by (induction xs arbitrary: ys) (auto split: sum.splits)

lemma root_config_set_root_config [simp]: "root_config (set_root_config rt s) = Inr rt"
  by (simp add: root_config_def set_root_config_def)





subsection \<open>Equality compares declared fields\<close>

lemma BaseConfig_to_dict_cong:
  assumes "\<And>k. is_config_field k \<Longrightarrow> k \<in> fst ` set (class_dict c) \<Longrightarrow> map_of i' k = map_of i k"
  shows "BaseConfig_to_dict c i' = BaseConfig_to_dict c i"
  unfolding BaseConfig_to_dict_def
  by (rule map_cong[OF refl]) (use assms in \<open>force split: option.splits\<close>)

lemma to_dict_leaf:
  "to_dict RootGenesis inst = Inr (VDict (BaseConfig_to_dict RootGenesis inst))"
  "to_dict POWConfig inst = Inr (VDict (BaseConfig_to_dict POWConfig inst))"
  by simp_all

text \<open>
  C3, as the code has it. \<^verbatim>\<open>__eq__\<close> compares the dictionaries of declared
  fields that \<^verbatim>\<open>BaseConfig.to_dict\<close> builds, not the results of the (possibly
  overridden) \<^verbatim>\<open>to_dict\<close>. For the classes that do not override \<^verbatim>\<open>to_dict\<close>,
  \<^verbatim>\<open>RootGenesis\<close> and \<^verbatim>\<open>POWConfig\<close>, equality therefore holds exactly when both
  \<^verbatim>\<open>to_dict()\<close> results are equal. In every class, two instances that agree on the
  declared fields of the class are interchangeable in a comparison: attributes that
  are not declared fields never affect the result.
\<close>

theorem eq_compares_declared_fields:
  "(py_eq (VObj c1 i1) (VObj c2 i2) \<longleftrightarrow>
      py_eq (VDict (BaseConfig_to_dict c1 i1)) (VDict (BaseConfig_to_dict c2 i2))) \<and>
   (c1 \<in> {RootGenesis, POWConfig} \<and> c2 \<in> {RootGenesis, POWConfig} \<longrightarrow>
      (py_eq (VObj c1 i1) (VObj c2 i2) \<longleftrightarrow>
         (\<exists>d1 d2. to_dict c1 i1 = Inr d1 \<and> to_dict c2 i2 = Inr d2 \<and> py_eq d1 d2))) \<and>
   ((\<forall>k. is_config_field k \<and> k \<in> fst ` set (class_dict c1) \<longrightarrow> map_of i1' k = map_of i1 k) \<and>
    (\<forall>k. is_config_field k \<and> k \<in> fst ` set (class_dict c2) \<longrightarrow> map_of i2' k = map_of i2 k) \<longrightarrow>
      py_eq (VObj c1 i1') (VObj c2 i2') = py_eq (VObj c1 i1) (VObj c2 i2))"
proof (intro conjI impI)
  show "py_eq (VObj c1 i1) (VObj c2 i2) \<longleftrightarrow>
      py_eq (VDict (BaseConfig_to_dict c1 i1)) (VDict (BaseConfig_to_dict c2 i2))"
    by simp
next
  assume "c1 \<in> {RootGenesis, POWConfig} \<and> c2 \<in> {RootGenesis, POWConfig}"
  then show "py_eq (VObj c1 i1) (VObj c2 i2) \<longleftrightarrow>
         (\<exists>d1 d2. to_dict c1 i1 = Inr d1 \<and> to_dict c2 i2 = Inr d2 \<and> py_eq d1 d2)"
    by auto
next
  assume a: "(\<forall>k. is_config_field k \<and> k \<in> fst ` set (class_dict c1) \<longrightarrow> map_of i1' k = map_of i1 k) \<and>
    (\<forall>k. is_config_field k \<and> k \<in> fst ` set (class_dict c2) \<longrightarrow> map_of i2' k = map_of i2 k)"
  have "BaseConfig_to_dict c1 i1' = BaseConfig_to_dict c1 i1"
    by (rule BaseConfig_to_dict_cong) (use a in blast)
  moreover have "BaseConfig_to_dict c2 i2' = BaseConfig_to_dict c2 i2"
    by (rule BaseConfig_to_dict_cong) (use a in blast)
  ultimately show "py_eq (VObj c1 i1') (VObj c2 i2') = py_eq (VObj c1 i1) (VObj c2 i2)"
    by simp
qed

text \<open>
  Two \<^verbatim>\<open>POWConfig\<close> objects with the same target block time, one of them with an
  internal attribute and a shard-like root reference.
\<close>

theorem eq_compares_declared_fields_witness:
  "py_eq (VObj POWConfig [(''TARGET_BLOCK_TIME'', VInt 5), (''_root_config'', VInt 1)])
         (VObj POWConfig [(''TARGET_BLOCK_TIME'', VInt 5)]) \<and>
   py_eq (VObj POWConfig [(''TARGET_BLOCK_TIME'', VInt 5)])
         (VObj POWConfig [(''TARGET_BLOCK_TIME'', VInt 5)]) \<and>
   (\<exists>d1 d2. to_dict POWConfig [(''TARGET_BLOCK_TIME'', VInt 5)] = Inr d1 \<and>
            to_dict POWConfig [(''TARGET_BLOCK_TIME'', VInt 5)] = Inr d2 \<and> py_eq d1 d2)"
proof -
  let ?i = "[(''TARGET_BLOCK_TIME'', VInt 5)]"
  let ?i' = "[(''TARGET_BLOCK_TIME'', VInt 5), (''_root_config'', VInt 1)]"
  note t = eq_compares_declared_fields[of POWConfig ?i POWConfig ?i ?i' ?i]
  have e: "py_eq (VObj POWConfig ?i) (VObj POWConfig ?i)"
    by (simp add: BaseConfig_to_dict_def field_defs dict_eq_def num_eq_def num_of_def)
  have "\<forall>k. is_config_field k \<and> k \<in> fst ` set (class_dict POWConfig) \<longrightarrow>
          map_of ?i' k = map_of ?i k"
    by (auto simp: field_defs)
  with t e have 1: "py_eq (VObj POWConfig ?i') (VObj POWConfig ?i)" by blast
  from t e have 2: "\<exists>d1 d2. to_dict POWConfig ?i = Inr d1 \<and> to_dict POWConfig ?i = Inr d2 \<and> py_eq d1 d2"
    by blast
  from 1 e 2 show ?thesis by blast
qed

text \<open>
  C3 as stated fails: two \<^verbatim>\<open>ShardGenesis\<close> objects that differ in \<^verbatim>\<open>ALLOC\<close>
  have equal \<^verbatim>\<open>to_dict()\<close> results and are not equal.
\<close>

theorem eq_differs_from_to_dict_eq:
  "(case (to_dict ShardGenesis [(''ALLOC'', VDict [(''00'', VInt 1)])],
          to_dict ShardGenesis [(''ALLOC'', VDict [])]) of
      (Inr d1, Inr d2) \<Rightarrow> py_eq d1 d2
    | _ \<Rightarrow> False) \<and>
   \<not> py_eq (VObj ShardGenesis [(''ALLOC'', VDict [(''00'', VInt 1)])])
            (VObj ShardGenesis [(''ALLOC'', VDict [])])"
  by (simp add: BaseConfig_to_dict_def field_defs dict_eq_def num_eq_def num_of_def)

subsection \<open>Decoding keeps unknown keys, encoding drops them\<close>











definition agree_off :: "string set \<Rightarrow> pydict \<Rightarrow> pydict \<Rightarrow> bool" where
  "agree_off S a b \<longleftrightarrow> (\<forall>k. k \<notin> S \<longrightarrow> map_of a k = map_of b k)"

lemma agree_off_update:
  "agree_off S a b \<Longrightarrow> agree_off S (AList.update k v a) (AList.update k v b)"
  by (simp add: agree_off_def update_conv')

lemma agree_off_update_in:
  "agree_off S a b \<Longrightarrow> k \<in> S \<Longrightarrow> agree_off S (AList.update k v a) b"
  by (auto simp: agree_off_def update_conv')


lemma agree_off_refl [simp]: "agree_off S a a"
  by (simp add: agree_off_def)






lemma rel_sum_update:
  "agree_off S a b \<Longrightarrow> rel_sum (=) (agree_off S) (Inr (AList.update k v a)) (Inr (AList.update k v b))"
  by (simp add: agree_off_update)














subsection \<open>The reward tax rate is a percentage\<close>

declare limit_loop.simps [simp del]

lemma limit_loop_returns:
  assumes "0 \<le> d" "d < n" "0 \<le> q0" "q0 \<le> M" "1 \<le> q1" "q1 \<le> M"
    and "D = q1 * n + q0 * d" "N = p1 * n + p0 * d" "coprime N D" "M < D"
  shows "\<exists>a0 b0 a1 b1. limit_loop M p0 q0 p1 q1 n d = Inr (a0, b0, a1, b1) \<and>
           0 \<le> b0 \<and> b0 \<le> M \<and> 1 \<le> b1 \<and> b1 \<le> M"
  using assms
proof (induction M p0 q0 p1 q1 n d rule: limit_loop.induct)
  case (1 M p0 q0 p1 q1 n d)
  have npos: "0 < n" using \<open>0 \<le> d\<close> \<open>d < n\<close> by simp
  have d0: "d \<noteq> 0"
  proof
    assume "d = 0"
    with 1 have "D = q1 * n" "N = p1 * n" by simp_all
    then have "n dvd D" "n dvd N" by simp_all
    with \<open>coprime N D\<close> have "is_unit n" by (meson coprime_common_divisor)
    with npos have "n = 1" by simp
    with \<open>D = q1 * n\<close> \<open>q1 \<le> M\<close> \<open>M < D\<close> show False by simp
  qed
  with \<open>0 \<le> d\<close> have dpos: "0 < d" by simp
  let ?a = "n div d"
  let ?q2 = "q0 + ?a * q1"
  have "0 < ?a" using \<open>d < n\<close> dpos by (simp add: pos_imp_zdiv_pos_iff)
  then have a1: "1 \<le> ?a" by simp
  show ?case
  proof (cases "M < ?q2")
    case True
    then have "limit_loop M p0 q0 p1 q1 n d = Inr (p0, q0, p1, q1)"
      using d0 by (subst limit_loop.simps) (simp add: Let_def)
    with 1 show ?thesis by simp
  next
    case False
    have step: "limit_loop M p0 q0 p1 q1 n d =
        limit_loop M p1 q1 (p0 + ?a * p1) ?q2 d (n - ?a * d)"
      using d0 False by (subst limit_loop.simps) (simp add: Let_def)
    have m: "n - ?a * d = n mod d" by (simp add: minus_div_mult_eq_mod)
    have "1 * 1 \<le> ?a * q1" using a1 \<open>1 \<le> q1\<close> by (intro mult_mono) simp_all
    with \<open>0 \<le> q0\<close> have q2pos: "1 \<le> ?q2" by linarith
    have i1: "D = ?q2 * d + q1 * (n - ?a * d)"
      using \<open>D = q1 * n + q0 * d\<close> by (simp add: algebra_simps)
    have i2: "N = (p0 + ?a * p1) * d + p1 * (n - ?a * d)"
      using \<open>N = p1 * n + p0 * d\<close> by (simp add: algebra_simps)
    have "\<exists>a0 b0 a1 b1.
        limit_loop M p1 q1 (p0 + ?a * p1) ?q2 d (n - ?a * d) = Inr (a0, b0, a1, b1) \<and>
        0 \<le> b0 \<and> b0 \<le> M \<and> 1 \<le> b1 \<and> b1 \<le> M"
    proof (rule "1.IH"[OF d0 refl refl])
      show "\<not> M < ?q2" by (rule False)
      show "0 \<le> n - ?a * d" unfolding m using dpos by simp
      show "n - ?a * d < d" unfolding m using dpos by simp
      show "0 \<le> q1" using \<open>1 \<le> q1\<close> by simp
      show "q1 \<le> M" by fact
      show "1 \<le> ?q2" by (rule q2pos)
      show "?q2 \<le> M" using False by simp
      show "D = ?q2 * d + q1 * (n - ?a * d)" by (rule i1)
      show "N = (p0 + ?a * p1) * d + p1 * (n - ?a * d)" by (rule i2)
      show "coprime N D" by fact
      show "M < D" by fact
    qed
    with step show ?thesis by simp
  qed
qed


lemma limit_denominator_returns:
  assumes M: "1 \<le> M"
  shows "\<exists>y. limit_denominator x M = Inr y"
proof -
  obtain n d where q: "quotient_of x = (n, d)" by (cases "quotient_of x")
  then have dpos: "0 < d" and cop: "coprime n d"
    by (simp_all add: quotient_of_denom_pos quotient_of_coprime)
  show ?thesis
  proof (cases "d \<le> M")
    case True
    with q M show ?thesis by (simp add: limit_denominator_def)
  next
    case False
    let ?a = "n div d"
    have first: "limit_loop M 0 1 1 0 n d = limit_loop M 1 0 ?a 1 d (n - ?a * d)"
      using dpos M by (subst limit_loop.simps) (simp add: Let_def)
    have m: "n - ?a * d = n mod d" by (simp add: minus_div_mult_eq_mod)
    have "\<exists>a0 b0 a1 b1. limit_loop M 1 0 ?a 1 d (n - ?a * d) = Inr (a0, b0, a1, b1) \<and>
           0 \<le> b0 \<and> b0 \<le> M \<and> 1 \<le> b1 \<and> b1 \<le> M"
    proof (rule limit_loop_returns[where D = d and N = n])
      show "0 \<le> n - ?a * d" "n - ?a * d < d" unfolding m using dpos by simp_all
      show "(0::int) \<le> 0" "0 \<le> M" "(1::int) \<le> 1" "1 \<le> M" using M by simp_all
      show "d = 1 * d + 0 * (n - ?a * d)" by simp
      show "n = ?a * d + 1 * (n - ?a * d)" by simp
      show "coprime n d" by (rule cop)
      show "M < d" using False by simp
    qed
    then obtain a0 b0 a1 b1 where
      l: "limit_loop M 0 1 1 0 n d = Inr (a0, b0, a1, b1)"
      and b: "0 \<le> b0" "b0 \<le> M" "1 \<le> b1" "b1 \<le> M"
      using first by auto
    let ?k = "(M - b0) div b1"
    have k0: "0 \<le> ?k" using b by (simp add: pos_imp_zdiv_nonneg_iff)
    have den: "b0 + ?k * b1 \<noteq> 0"
    proof (cases "b0 = 0")
      case True
      with b have "0 < ?k" by (simp add: pos_imp_zdiv_pos_iff)
      with b(3) have "0 < ?k * b1" by simp
      with True show ?thesis by auto
    next
      case False
      moreover have "0 \<le> ?k * b1" using k0 b(3) by simp
      ultimately show ?thesis using b(1) by linarith
    qed
    from q False M l b(3) den show ?thesis
      by (simp add: limit_denominator_def Fraction_def Let_def)
  qed
qed

text \<open>
  C7. For every aggregate whose stored \<^verbatim>\<open>REWARD_TAX_RATE\<close> is a number (a float,
  an integer or a boolean) with exact value \<open>x\<close>, limiting the denominator of \<open>x\<close>
  returns a fraction \<open>y\<close>, in lowest terms, and \<^verbatim>\<open>reward_tax_rate\<close> returns \<open>y\<close>
  if the denominator of \<open>y\<close> is at most 100 and fails with an assertion error
  otherwise; nothing else can happen. For the stored rate 0.5 it returns 1/2.
\<close>

theorem reward_tax_rate_asserts_percent:
  assumes "getattr QuarkChainConfig self ''REWARD_TAX_RATE'' = Inr v"
    and "num_of v = Some x"
  shows "\<exists>y. limit_denominator x 1000000 = Inr y \<and>
             coprime (fst (quotient_of y)) (snd (quotient_of y)) \<and>
             (reward_tax_rate self = Some (Inl AssertionError) \<longleftrightarrow> 100 < snd (quotient_of y)) \<and>
             (reward_tax_rate self = Some (Inr y) \<longleftrightarrow> snd (quotient_of y) \<le> 100) \<and>
             (x = 1 / 2 \<longrightarrow> reward_tax_rate self = Some (Inr (1 / 2)))"
proof -
  from limit_denominator_returns[of 1000000 x] obtain y where
    y: "limit_denominator x 1000000 = Inr y" by auto
  have r: "reward_tax_rate self =
      Some (if snd (quotient_of y) \<le> 100 then Inr y else Inl AssertionError)"
    using assms y by (cases v) (simp_all add: reward_tax_rate_def assert_percent_def num_of_def)
  have h12: "(1 / 2 :: rat) = Fract 1 2" by (simp add: Fract_of_int_quotient)
  have q12: "quotient_of (1 / 2) = (1, 2)"
    unfolding h12 by (simp add: quotient_of_Fract Rat.normalize_def)
  have half: "limit_denominator (1 / 2) 1000000 = Inr (1 / 2)"
    by (simp add: limit_denominator_def q12)
  have "x = 1 / 2 \<longrightarrow> reward_tax_rate self = Some (Inr (1 / 2))"
  proof
    assume h: "x = 1 / 2"
    with y half have yh: "y = 1 / 2" by simp
    show "reward_tax_rate self = Some (Inr (1 / 2))"
      unfolding r yh q12 by simp
  qed
  moreover have "coprime (fst (quotient_of y)) (snd (quotient_of y))"
    by (cases "quotient_of y") (simp add: quotient_of_coprime)
  ultimately show ?thesis using y r by auto
qed


text \<open>The default aggregate, whose stored rate is the class default 0.5.\<close>

theorem reward_tax_rate_asserts_percent_witness:
  "getattr QuarkChainConfig QuarkChainConfig_init ''REWARD_TAX_RATE'' = Inr (VFloat (1 / 2)) \<and>
   reward_tax_rate QuarkChainConfig_init = Some (Inr (1 / 2))"
proof -
  have g: "getattr QuarkChainConfig QuarkChainConfig_init ''REWARD_TAX_RATE'' = Inr (VFloat (1 / 2))"
    by (simp add: getattr_def QuarkChainConfig_init_def Let_def)
  have n: "num_of (VFloat (1 / 2)) = Some (1 / 2)" by (simp add: num_of_def)
  from reward_tax_rate_asserts_percent[OF g n] g show ?thesis by blast
qed

subsection \<open>Blocks per shard in one root block\<close>

lemma bitlen_bounds_rat:
  assumes "0 < n"
  shows "(2::rat) powi (bitlen n - 1) \<le> of_int n" and "of_int n < (2::rat) powi (bitlen n)"
proof -
  from assms have b1: "1 \<le> bitlen n" by (auto simp: bitlen_alt_def)
  from bitlen_bounds[OF assms] have l: "2 ^ nat (bitlen n - 1) \<le> n" and u: "n < 2 ^ nat (bitlen n)"
    by simp_all
  have "(2::rat) powi (bitlen n - 1) = of_int (2 ^ nat (bitlen n - 1))"
    using b1 by (simp add: power_int_nonneg_exp)
  also have "\<dots> \<le> of_int n" using l by (simp only: of_int_le_iff)
  finally show "(2::rat) powi (bitlen n - 1) \<le> of_int n" .
  have "(of_int n :: rat) < of_int (2 ^ nat (bitlen n))" using u by (simp only: of_int_less_iff)
  also have "\<dots> = (2::rat) powi (bitlen n)"
    using b1 by (simp add: power_int_nonneg_exp)
  finally show "of_int n < (2::rat) powi (bitlen n)" .
qed

lemma floor_log2_bounds:
  assumes "0 < x"
  shows "2 powi (floor_log2 x) \<le> x" and "x < 2 powi (floor_log2 x + 1)"
proof -
  obtain n d where q: "quotient_of x = (n, d)" by (cases "quotient_of x")
  then have dpos: "0 < d" by (rule quotient_of_denom_pos)
  from q have x: "x = of_int n / of_int d" by (rule quotient_of_div)
  with assms dpos have npos: "0 < n" by (simp add: zero_less_divide_iff)
  let ?e = "bitlen n - bitlen d"
  note bn = bitlen_bounds_rat[OF npos] and bd = bitlen_bounds_rat[OF dpos]
  have dr: "(0::rat) < of_int d" using dpos by simp
  have low: "2 powi (?e - 1) \<le> x"
  proof -
    have "(2::rat) powi (?e - 1) = 2 powi (bitlen n - 1) / 2 powi (bitlen d)"
      by (simp add: power_int_diff[symmetric] algebra_simps)
    also have "\<dots> \<le> of_int n / of_int d"
      using bn(1) bd(2) dr npos by (intro frac_le) simp_all
    finally show ?thesis by (simp add: x)
  qed
  have up: "x < 2 powi (?e + 1)"
  proof -
    have "x = of_int n / of_int d" by (rule x)
    also have "\<dots> < 2 powi (bitlen n) / 2 powi (bitlen d - 1)"
      using bn(2) bd(1) dr npos by (intro frac_less) simp_all
    also have "\<dots> = (2::rat) powi (?e + 1)"
      by (simp add: power_int_diff[symmetric] algebra_simps)
    finally show ?thesis .
  qed
  have fl: "floor_log2 x = (if 2 powi ?e \<le> x then ?e else ?e - 1)"
    by (simp add: floor_log2_def q)
  show "2 powi (floor_log2 x) \<le> x" using low by (simp add: fl)
  show "x < 2 powi (floor_log2 x + 1)" using up by (auto simp: fl)
qed


lemma round_half_even_ge: "of_int m \<le> t \<Longrightarrow> m \<le> round_half_even t"
proof -
  assume "of_int m \<le> t"
  then have "m \<le> \<lfloor>t\<rfloor>" by (simp add: le_floor_iff)
  then show ?thesis by (simp add: round_half_even_def Let_def)
qed

lemma round_half_even_le: "t \<le> of_int m \<Longrightarrow> round_half_even t \<le> m"
proof -
  assume t: "t \<le> of_int m"
  then have f: "\<lfloor>t\<rfloor> \<le> m" by (simp add: floor_le_iff)
  show ?thesis
  proof (cases "\<lfloor>t\<rfloor> = m")
    case True
    with t have "t = of_int m" using of_int_floor_le[of t] by simp
    then show ?thesis by (simp add: round_half_even_def)
  next
    case False
    with f have "\<lfloor>t\<rfloor> + 1 \<le> m" by simp
    then show ?thesis using f by (simp add: round_half_even_def Let_def)
  qed
qed

lemma round_half_even_less: "t < of_int m - 1 / 2 \<Longrightarrow> round_half_even t < m"
proof -
  assume t: "t < of_int m - 1 / 2"
  have fl: "of_int \<lfloor>t\<rfloor> \<le> t" by simp
  show ?thesis
  proof (cases "t - of_int \<lfloor>t\<rfloor> < 1 / 2")
    case True
    have "of_int \<lfloor>t\<rfloor> < (of_int m :: rat)" using fl t by linarith
    then have "\<lfloor>t\<rfloor> < m" by (simp only: of_int_less_iff)
    with True show ?thesis by (simp add: round_half_even_def Let_def)
  next
    case False
    then have "of_int \<lfloor>t\<rfloor> + 1 < (of_int m :: rat)" using t by linarith
    then have "(of_int (\<lfloor>t\<rfloor> + 1) :: rat) < of_int m" by simp
    then have "\<lfloor>t\<rfloor> + 1 < m" by (simp only: of_int_less_iff)
    then show ?thesis by (simp add: round_half_even_def Let_def)
  qed
qed


lemma round64_pos:
  "0 < x \<Longrightarrow>
   round64 x = of_int (round_half_even (x / 2 powi (max (floor_log2 x) (- 1022) - 52))) *
               2 powi (max (floor_log2 x) (- 1022) - 52)"
  by (simp add: round64_def Let_def)

lemma divide_by_inverse_rat: "u * p = 1 \<Longrightarrow> x / u = x * (p::rat)"
  by (metis divide_inverse inverse_unique)

lemma round64_int_quotient:
  assumes a: "0 < a" "a < 2 ^ 53" and b: "0 < b"
  shows "of_int (a div b) \<le> round64 (of_int a / of_int b)"
    and "round64 (of_int a / of_int b) < of_int (a div b) + 1"
proof -
  define x :: rat where "x = of_int a / of_int b"
  define q where "q = a div b"
  define f where "f = floor_log2 x"
  define e where "e = max f (- 1022)"
  define u :: rat where "u = 2 powi (e - 52)"
  have ar: "(0::rat) < of_int a" and br: "(0::rat) < of_int b" using a b by simp_all
  have xpos: "0 < x" using ar br by (simp add: x_def)
  have bx: "of_int b * x = of_int a" using br by (simp add: x_def)
  have fq: "\<lfloor>x\<rfloor> = q" unfolding x_def q_def by (rule floor_divide_of_int_eq)
  have qx: "of_int q \<le> x" "x < of_int q + 1"
    using of_int_floor_le[of x] floor_correct[of x] by (simp_all add: fq)
  have q0: "0 \<le> q" using a b by (simp add: q_def pos_imp_zdiv_nonneg_iff)
  have upos: "0 < u" by (simp add: u_def zero_less_power_int)
  have r: "round64 x = of_int (round_half_even (x / u)) * u"
    unfolding u_def e_def f_def using xpos by (rule round64_pos)
  have a53: "(of_int a :: rat) < 2 powi 53"
  proof -
    have "(of_int a :: rat) < of_int (2 ^ 53)" using a(2) by (simp only: of_int_less_iff)
    then show ?thesis by simp
  qed
  have "x \<le> of_int b * x"
    using b xpos by (simp add: mult_le_cancel_right1)
  with bx a53 have x53: "x < 2 powi 53" by simp
  have fb: "2 powi f \<le> x" "x < 2 powi (f + 1)"
    unfolding f_def using floor_log2_bounds[OF xpos] by simp_all
  have f52: "f \<le> 52"
  proof (rule ccontr)
    assume "\<not> f \<le> 52"
    then have "(2::rat) powi 53 \<le> 2 powi f" by (intro power_int_increasing) simp_all
    with fb(1) x53 show False by simp
  qed
  then have e52: "e \<le> 52" by (simp add: e_def)
  define P where "P = (2::int) ^ nat (52 - e)"
  have Ppos: "0 < P" by (simp add: P_def)
  have Pr: "(of_int P :: rat) = 2 powi (52 - e)"
    using e52 by (simp add: P_def power_int_nonneg_exp)
  have uP: "u * of_int P = 1"
    unfolding Pr u_def using power_int_add[of "2::rat" "e - 52" "52 - e"] by simp
  have dv: "x / u = x * of_int P"
    using uP by (rule divide_by_inverse_rat)
  have "of_int (q * P) \<le> x * of_int P"
    using qx(1) Ppos by (simp add: mult_right_mono)
  then have "q * P \<le> round_half_even (x / u)"
    unfolding dv by (rule round_half_even_ge)
  then have "(of_int (q * P) :: rat) \<le> of_int (round_half_even (x / u))"
    by (simp only: of_int_le_iff)
  then have "of_int (q * P) * u \<le> of_int (round_half_even (x / u)) * u"
    using upos by (intro mult_right_mono) simp_all
  moreover have qPu: "of_int (q * P) * u = (of_int q :: rat)"
  proof -
    have "of_int (q * P) * u = of_int q * (u * of_int P)" by (simp add: algebra_simps)
    then show ?thesis by (simp only: uP mult_1_right)
  qed
  ultimately have lower: "of_int q \<le> round64 x" by (simp only: r)
  have upper: "round64 x < of_int q + 1"
  proof (cases "- 1022 \<le> f")
    case True
    then have e: "e = f" by (simp add: e_def)
    have gb: "1 \<le> (q + 1) * b - a"
    proof -
      have "a mod b < b" using b by simp
      moreover have "a = q * b + a mod b" by (simp add: q_def)
      ultimately have "a < q * b + b" by linarith
      moreover have "(q + 1) * b = q * b + b" by (simp add: algebra_simps)
      ultimately show ?thesis by linarith
    qed
    have g: "1 \<le> of_int b * ((of_int q + 1) - x)"
    proof -
      have "of_int b * ((of_int q + 1) - x) = (of_int ((q + 1) * b - a) :: rat)"
        using bx by (simp add: algebra_simps)
      moreover have "(of_int 1 :: rat) \<le> of_int ((q + 1) * b - a)"
        using gb by (simp only: of_int_le_iff)
      ultimately show ?thesis by simp
    qed
    have "of_int b * 2 powi f \<le> of_int b * x"
      using fb(1) br by (simp add: mult_left_mono)
    with bx a53 have bf: "of_int b * 2 powi f < (2::rat) powi 53" by simp
    have PF: "of_int P * 2 powi f = (2::rat) powi 52"
      unfolding Pr e using power_int_add[of "2::rat" "52 - f" f] by simp
    have "(2 * of_int P) * (2::rat) powi f = 2 * (of_int P * 2 powi f)"
      by (simp only: mult.assoc)
    also have "\<dots> = 2 * 2 powi 52" by (simp only: PF)
    also have "\<dots> = (2::rat) powi 53" by simp
    finally have E: "(2 * of_int P) * (2::rat) powi f = 2 powi 53" .
    from bf have "of_int b * 2 powi f < (2 * of_int P) * (2::rat) powi f"
      by (simp only: E)
    moreover have "(0::rat) < 2 powi f" by (simp add: zero_less_power_int)
    ultimately have bP: "of_int b < 2 * (of_int P :: rat)"
      by (simp only: mult_less_cancel_right_pos)
    have "of_int b * (1 / 2) < (of_int P :: rat) * 1" using bP by simp
    also have "\<dots> \<le> of_int P * (of_int b * ((of_int q + 1) - x))"
      using g Ppos by (intro mult_left_mono) simp_all
    also have "of_int P * (of_int b * ((of_int q + 1) - x)) =
        of_int b * (((of_int q + 1) - x) * of_int P)"
      by (simp only: mult.assoc mult.left_commute mult.commute)
    finally have "of_int b * (1 / 2) < of_int b * (((of_int q + 1) - x) * of_int P)" .
    then have "1 / 2 < ((of_int q + 1) - x) * of_int P"
      using br by (simp only: mult_less_cancel_left_pos)
    then have "x * of_int P < of_int ((q + 1) * P) - 1 / 2"
      by (simp add: algebra_simps)
    then have "round_half_even (x / u) < (q + 1) * P"
      unfolding dv by (rule round_half_even_less)
    then have "round_half_even (x / u) \<le> (q + 1) * P - 1" by simp
    then have "(of_int (round_half_even (x / u)) :: rat) \<le> of_int ((q + 1) * P - 1)"
      by (simp only: of_int_le_iff)
    then have "round64 x \<le> of_int ((q + 1) * P - 1) * u"
      unfolding r using upos by (intro mult_right_mono) simp_all
    also have "of_int ((q + 1) * P - 1) * u = (of_int q + 1) * (u * of_int P) - u"
      by (simp add: algebra_simps)
    also have "\<dots> < of_int q + 1" using uP upos by simp
    finally show ?thesis .
  next
    case False
    then have e: "e = - 1022" by (simp add: e_def)
    have "x < 2 powi (f + 1)" by (rule fb(2))
    also have "(2::rat) powi (f + 1) \<le> 2 powi (- 1022)"
      using False by (intro power_int_increasing) simp_all
    finally have xs: "x < 2 powi (- 1022)" .
    have Pv: "(of_int P :: rat) = 2 powi 1074" by (simp add: Pr e)
    have "x * of_int P \<le> 2 powi (- 1022) * (2::rat) powi 1074"
      unfolding Pv using xs by (intro mult_right_mono) simp_all
    also have "(2::rat) powi (- 1022) * 2 powi 1074 = 2 powi 52"
      using power_int_add[of "2::rat" "- 1022" 1074] by simp
    also have "(2::rat) powi 52 = of_int (2 ^ 52)" by simp
    finally have "round_half_even (x / u) \<le> 2 ^ 52"
      unfolding dv by (rule round_half_even_le)
    then have "(of_int (round_half_even (x / u)) :: rat) \<le> of_int (2 ^ 52)"
      by (simp only: of_int_le_iff)
    then have "round64 x \<le> of_int (2 ^ 52) * u"
      unfolding r using upos by (intro mult_right_mono) simp_all
    also have "(of_int (2 ^ 52) :: rat) = 2 powi 52" by simp
    also have "(2::rat) powi 52 * u = 2 powi (- 1022)"
      unfolding u_def e using power_int_add[of "2::rat" 52 "- 1022 - 52"] by simp
    also have "(2::rat) powi (- 1022) < 2 powi 0"
      by (intro power_int_strict_increasing) simp_all
    also have "(2::rat) powi 0 \<le> of_int q + 1" using q0 by simp
    finally show ?thesis .
  qed
  from lower show "of_int (a div b) \<le> round64 (of_int a / of_int b)"
    by (simp only: x_def q_def)
  from upper show "round64 (of_int a / of_int b) < of_int (a div b) + 1"
    by (simp only: x_def q_def)
qed


lemma fl_int_quotient:
  assumes "0 < a" "a < 2 ^ 53" "0 < b"
  shows "fl (of_int a / of_int b) = NFloat (round64 (of_int a / of_int b))"
    and "py_int (NFloat (round64 (of_int a / of_int b))) = Inr (a div b)"
proof -
  let ?r = "round64 (of_int a / of_int b)"
  note rb = round64_int_quotient[OF assms]
  have q0: "0 \<le> a div b" using assms by (simp add: pos_imp_zdiv_nonneg_iff)
  have "a div b \<le> a div 1" using assms by (intro zdiv_mono2) simp_all
  then have "a div b \<le> a" by simp
  with assms(2) have "a div b + 1 \<le> 2 ^ 53" by simp
  then have "(of_int (a div b + 1) :: rat) \<le> of_int (2 ^ 53)" by (simp only: of_int_le_iff)
  then have "(of_int (a div b) :: rat) + 1 \<le> 2 powi 53" by simp
  with rb(2) have "?r < 2 powi 53" by simp
  also have "(2::rat) powi 53 \<le> 2 powi 1024" by (intro power_int_increasing) simp_all
  finally have u: "?r < 2 powi 1024" .
  have r0: "0 \<le> ?r" using rb(1) q0 by (smt (verit) of_int_0_le_iff order_trans)
  with u have "\<not> 2 powi 1024 \<le> \<bar>?r\<bar>" by simp
  then show "fl (of_int a / of_int b) = NFloat ?r" by (simp only: fl_def Let_def if_False)
  have "\<lfloor>?r\<rfloor> = a div b" using rb by (intro floor_unique) simp_all
  with r0 show "py_int (NFloat ?r) = Inr (a div b)" by simp
qed

text \<open>
  C4, as the code has it. The quotient of the two block times is a true division,
  computed in binary64 floating point, and \<^verbatim>\<open>int\<close> truncates it. For a shard whose
  root reference is set, with integer target block times \<open>a\<close> (root) and \<open>b\<close>
  (shard), both positive and \<open>a\<close> below \<open>2 ^ 53\<close>, and an integer buffer, the
  rounding never reaches the next integer, so
  \<^verbatim>\<open>max_blocks_per_shard_in_one_root_block\<close> is \<open>a div b\<close> plus the buffer.
\<close>

theorem max_blocks_is_floor_plus_extra:
  assumes rc: "root_config self = Inr rt"
    and ta: "target_block_time rt = Inr (VInt a)"
    and tb: "target_block_time (VObj ShardConfig self) = Inr (VInt b)"
    and ex: "getattr ShardConfig self ''EXTRA_SHARD_BLOCKS_IN_ROOT_BLOCK'' = Inr (VInt extra)"
    and a: "0 < a" "a < 2 ^ 53" and b: "0 < b"
  shows "max_blocks_per_shard_in_one_root_block self = Inr (NInt (a div b + extra))"
proof -
  note f = fl_int_quotient[OF a b]
  have d: "py_truediv (NInt a) (VInt b) = Inr (NFloat (round64 (of_int a / of_int b)))"
    using b by (simp add: py_truediv_def f(1))
  show ?thesis
    by (simp add: max_blocks_per_shard_in_one_root_block_def rc ta tb ex d f(2) py_add_def
        del: py_int.simps)
qed

text \<open>
  The example of the specification: root time 10, shard time 3, buffer 3 (the
  class default), as \<^verbatim>\<open>QuarkChainConfig.__init__\<close> builds a shard.
\<close>

theorem max_blocks_is_floor_plus_extra_witness:
  "max_blocks_per_shard_in_one_root_block (new_shard (new_root (VInt 10) (VInt 8)) (VInt 3))
     = Inr (NInt 6)"
proof -
  let ?rt = "new_root (VInt 10) (VInt 8)"
  let ?s = "new_shard ?rt (VInt 3)"
  have "getattr ShardConfig ?s ''EXTRA_SHARD_BLOCKS_IN_ROOT_BLOCK'' = Inr (VInt 3)"
    by (simp add: getattr_def new_shard_def ShardConfig_init_def POWConfig_init_def)
  from max_blocks_is_floor_plus_extra[OF new_shard_props(1) target_block_time_new_root
      new_shard_props(2) this]
  show ?thesis by simp
qed

text \<open>
  C4 as stated fails: with root time \<open>2 ^ 53 + 1\<close>, shard time 1 and buffer 3 the
  float quotient is \<open>2 ^ 53\<close>, and the property is one less than the floor of the
  quotient plus the buffer.
\<close>

theorem max_blocks_differs_from_floor:
  "max_blocks_per_shard_in_one_root_block
     (new_shard (new_root (VInt 9007199254740993) (VInt 8)) (VInt 1))
     = Inr (NInt 9007199254740995) \<and>
   9007199254740993 div 1 + 3 = (9007199254740996 :: int)"
proof -
  let ?rt = "new_root (VInt 9007199254740993) (VInt 8)"
  let ?s = "new_shard ?rt (VInt 1)"
  have ex: "getattr ShardConfig ?s ''EXTRA_SHARD_BLOCKS_IN_ROOT_BLOCK'' = Inr (VInt 3)"
    by (simp add: getattr_def new_shard_def ShardConfig_init_def POWConfig_init_def)
  have r: "round64 9007199254740993 = 9007199254740992" by code_simp
  have "fl 9007199254740993 = NFloat 9007199254740992"
    by (simp add: fl_def r)
  then have d: "py_truediv (NInt 9007199254740993) (VInt 1) = Inr (NFloat 9007199254740992)"
    by (simp add: py_truediv_def)
  have "max_blocks_per_shard_in_one_root_block ?s = Inr (NInt 9007199254740995)"
    by (simp add: max_blocks_per_shard_in_one_root_block_def new_shard_props
        target_block_time_new_root ex d py_add_def)
  then show ?thesis by simp
qed

end
